theory Spec2Isabelle
  imports Complex_Main
begin

section \<open>Conventions\<close>

text \<open>
  This theory embeds the numerical core of the constrained PPO trainer
  (\<^verbatim>\<open>align_anything/trainers/text_image_to_text/ppo_lag.py\<close>) and the preference
  collator (\<^verbatim>\<open>align_anything/datasets/text_image_to_text/new_preference.py\<close>).

  Tensor entries are idealised as real numbers: rounding, overflow and underflow of the
  floating-point formats are not part of the model. A one-dimensional tensor is a list, a
  two-dimensional tensor of shape \<open>(B, L)\<close> with \<open>B \<ge> 1\<close> is the list of its \<open>B\<close> rows.
  Every Python or torch exception the modelled code can raise is a value of \<open>error\<close>.
\<close>

datatype error =
    IndexError
  | KeyError
  | RuntimeError
  | ValueError string

text \<open>
  A Python loop whose body may raise stops at the first exception: \<open>collect\<close> runs
  the per-row results in order and returns the first error, or all values.
\<close>

fun collect :: "(error + 'a) list \<Rightarrow> error + 'a list" where
  "collect [] = Inr []"
| "collect (x # xs) =
     (case x of Inl e \<Rightarrow> Inl e
      | Inr v \<Rightarrow> (case collect xs of Inl e \<Rightarrow> Inl e | Inr vs \<Rightarrow> Inr (v # vs)))"

section \<open>Generalized advantage estimation\<close>

text \<open>
  \<^verbatim>\<open>get_advantages_and_returns(values, rewards, sequence_mask, start)\<close>.
  All of its tensor operations act on each batch row separately, so the model is a
  function of one row, mapped over the rows of the batch.

  \<^verbatim>\<open>values * sequence_mask\<close> multiplies by 1 at a valid position and by 0 elsewhere.
  The operands must have the same length here; torch's broadcasting of a dimension of
  size one is not modelled and is reported as the shape error.
\<close>

definition masked :: "real list \<Rightarrow> bool list \<Rightarrow> real list" where
  "masked xs ms = map2 (\<lambda>x m. x * of_bool m) xs ms"

definition mul_mask :: "real list \<Rightarrow> bool list \<Rightarrow> error + real list" where
  "mul_mask xs ms =
     (if length xs = length ms then Inr (masked xs ms) else Inl RuntimeError)"

text \<open>
  One iteration of \<^verbatim>\<open>for t in reversed(range(start, length))\<close>; the loop state is
  \<open>(last_gae_lambda, advantages_reversed)\<close>:
  \<^verbatim>\<open>
  next_values = values[:, t + 1] if t < length - 1 else 0.0
  delta = rewards[:, t] + self.gamma * next_values - values[:, t]
  last_gae_lambda = delta + self.gamma * self.gae_lambda * last_gae_lambda
  advantages_reversed.append(last_gae_lambda)\<close>
\<close>

definition gae_step ::
  "real \<Rightarrow> real \<Rightarrow> real list \<Rightarrow> real list \<Rightarrow> nat \<Rightarrow> real \<times> real list \<Rightarrow> nat
     \<Rightarrow> real \<times> real list" where
  "gae_step gamma gae_lambda values rewards len st t =
     (case st of (last_gae_lambda, advantages_reversed) \<Rightarrow>
        let next_values = (if int t < int len - 1 then values ! (t + 1) else 0);
            delta = rewards ! t + gamma * next_values - values ! t;
            last_gae_lambda = delta + gamma * gae_lambda * last_gae_lambda
        in (last_gae_lambda, advantages_reversed @ [last_gae_lambda]))"

text \<open>
  The whole function on one row. \<^verbatim>\<open>torch.stack\<close> of an empty list raises, which
  happens when the loop does not run (\<open>start \<ge> length\<close>).
\<close>

definition get_advantages_and_returns_row ::
  "real \<Rightarrow> real \<Rightarrow> real list \<Rightarrow> real list \<Rightarrow> bool list \<Rightarrow> nat
     \<Rightarrow> error + real list \<times> real list" where
  "get_advantages_and_returns_row gamma gae_lambda values0 rewards0 sequence_mask start =
     (case mul_mask values0 sequence_mask of Inl e \<Rightarrow> Inl e | Inr values \<Rightarrow>
      case mul_mask rewards0 sequence_mask of Inl e \<Rightarrow> Inl e | Inr rewards \<Rightarrow>
        let len = length rewards;
            advantages_reversed =
              snd (foldl (gae_step gamma gae_lambda values rewards len) (0, [])
                     (rev [start..<len]))
        in if advantages_reversed = [] then Inl RuntimeError
           else let advantages = rev advantages_reversed;
                    returns = map2 (+) advantages (drop start values)
                in Inr (advantages, returns))"

text \<open>The batch: the tensors need the same number of rows.\<close>

definition get_advantages_and_returns ::
  "real \<Rightarrow> real \<Rightarrow> real list list \<Rightarrow> real list list \<Rightarrow> bool list list \<Rightarrow> nat
     \<Rightarrow> error + real list list \<times> real list list" where
  "get_advantages_and_returns gamma gae_lambda values rewards sequence_mask start =
     (if length values = length sequence_mask \<and> length rewards = length sequence_mask
      then (case collect
                   (map (\<lambda>(v, r, m). get_advantages_and_returns_row gamma gae_lambda v r m start)
                      (zip values (zip rewards sequence_mask))) of
              Inl e \<Rightarrow> Inl e
            | Inr rows \<Rightarrow> Inr (map fst rows, map snd rows))
      else Inl RuntimeError)"

text \<open>
  The recurrence as the specification writes it, for comparison with the loop:
  \<open>\<delta>\<^sub>t = r\<^sub>t + \<gamma> V\<^sub>t\<^sub>+\<^sub>1 - V\<^sub>t\<close> with \<open>V\<^sub>R = 0\<close>, and
  \<open>A\<^sub>t = \<delta>\<^sub>t + \<gamma> \<lambda> A\<^sub>t\<^sub>+\<^sub>1\<close> with \<open>A\<^sub>R = 0\<close>, where \<open>R = length r\<close>.
\<close>

function gae_recurrence :: "real \<Rightarrow> real \<Rightarrow> real list \<Rightarrow> real list \<Rightarrow> nat \<Rightarrow> real" where
  "gae_recurrence gamma lam V r t =
     (if t < length r
      then (r ! t + gamma * (if Suc t < length r then V ! Suc t else 0) - V ! t)
             + gamma * lam * gae_recurrence gamma lam V r (Suc t)
      else 0)"
  by pat_completeness auto
termination
  by (relation "measure (\<lambda>(gamma, lam, V, r, t). length r - t)") auto

section \<open>KL-penalised reward and cost streams\<close>

text \<open>
  \<^verbatim>\<open>m.nonzero()\<close> lists the indices of the true entries of a mask row in increasing
  order; \<^verbatim>\<open>m.nonzero()[-1]\<close> is the last of them and raises \<^verbatim>\<open>IndexError\<close> when
  there is none.
\<close>

definition nonzero :: "bool list \<Rightarrow> nat list" where
  "nonzero m = filter (\<lambda>i. m ! i) [0..<length m]"

definition end_index_row :: "bool list \<Rightarrow> error + nat" where
  "end_index_row m = (if nonzero m = [] then Inl IndexError else Inr (last (nonzero m)))"

text \<open>
  Element-wise difference of two rows, and \<^verbatim>\<open>torch.scatter_add\<close> along the last
  dimension with one index and one source value per row: the value is added to the entry
  at the index, every other entry is kept. An index outside the row is an error.
\<close>

definition sub_rows :: "real list \<Rightarrow> real list \<Rightarrow> error + real list" where
  "sub_rows xs ys =
     (if length xs = length ys then Inr (map2 (-) xs ys) else Inl RuntimeError)"

definition scatter_add :: "real list \<Rightarrow> nat \<Rightarrow> real \<Rightarrow> error + real list" where
  "scatter_add input index src =
     (if index < length input then Inr (input[index := input ! index + src])
      else Inl RuntimeError)"

text \<open>\<^verbatim>\<open>torch.clamp(x, min=lo, max=hi)\<close> is \<open>min (max x lo) hi\<close>.\<close>

definition clamp :: "real \<Rightarrow> real \<Rightarrow> real \<Rightarrow> real" where
  "clamp x lo hi = min (max x lo) hi"

text \<open>
  One row of the body of \<^verbatim>\<open>add_kl_divergence_regularization_with_cost\<close> up to the
  \<^verbatim>\<open>return\<close>: the local tensors \<^verbatim>\<open>rewards\<close> and \<^verbatim>\<open>costs\<close> before clamping.
  \<^verbatim>\<open>
  kl_divergence_estimate = log_probs - ref_log_probs
  kl_penalty_rewards = -self.kl_coeff * kl_divergence_estimate
  rewards = torch.scatter_add(kl_penalty_rewards, dim=-1, index=end_index..., src=reward...)
  costs = torch.scatter_add(-kl_penalty_rewards, dim=-1, index=end_index..., src=cost...)\<close>
\<close>

definition kl_scatter_row ::
  "real \<Rightarrow> real \<Rightarrow> real \<Rightarrow> real list \<Rightarrow> real list \<Rightarrow> nat \<Rightarrow> error + real list \<times> real list" where
  "kl_scatter_row kl_coeff reward cost log_probs ref_log_probs end_index =
     (case sub_rows log_probs ref_log_probs of Inl e \<Rightarrow> Inl e
      | Inr kl_divergence_estimate \<Rightarrow>
        let kl_penalty_rewards = map (\<lambda>k. - kl_coeff * k) kl_divergence_estimate in
        case scatter_add kl_penalty_rewards end_index reward of Inl e \<Rightarrow> Inl e
        | Inr rewards \<Rightarrow>
          (case scatter_add (map uminus kl_penalty_rewards) end_index cost of Inl e \<Rightarrow> Inl e
           | Inr costs \<Rightarrow> Inr (rewards, costs)))"

text \<open>
  The batch. \<^verbatim>\<open>end_index = torch.cat([m.nonzero()[-1] for m in sequence_mask])\<close> is
  computed first, for all rows. The tensors need the same number of rows; a batch in
  which they differ is reported as the shape error.
\<close>

definition kl_scatter ::
  "real \<Rightarrow> real list \<Rightarrow> real list \<Rightarrow> real list list \<Rightarrow> real list list \<Rightarrow> bool list list
     \<Rightarrow> error + real list list \<times> real list list" where
  "kl_scatter kl_coeff reward cost log_probs ref_log_probs sequence_mask =
     (case collect (map end_index_row sequence_mask) of Inl e \<Rightarrow> Inl e
      | Inr end_index \<Rightarrow>
        if length log_probs = length end_index \<and> length ref_log_probs = length end_index \<and>
           length reward = length end_index \<and> length cost = length end_index
        then (case collect
                     (map (\<lambda>i. kl_scatter_row kl_coeff (reward ! i) (cost ! i)
                                 (log_probs ! i) (ref_log_probs ! i) (end_index ! i))
                        [0..<length end_index]) of
                Inl e \<Rightarrow> Inl e
              | Inr rows \<Rightarrow> Inr (map fst rows, map snd rows))
        else Inl RuntimeError)"

definition add_kl_divergence_regularization_with_cost ::
  "real \<Rightarrow> real \<Rightarrow> real list \<Rightarrow> real list \<Rightarrow> real list list \<Rightarrow> real list list
     \<Rightarrow> bool list list \<Rightarrow> error + real list list \<times> real list list" where
  "add_kl_divergence_regularization_with_cost kl_coeff clip_range_score
       reward cost log_probs ref_log_probs sequence_mask =
     (case kl_scatter kl_coeff reward cost log_probs ref_log_probs sequence_mask of
        Inl e \<Rightarrow> Inl e
      | Inr (rewards, costs) \<Rightarrow>
          Inr (map (map (\<lambda>x. clamp x (- clip_range_score) clip_range_score)) rewards,
               map (map (\<lambda>x. clamp x (- clip_range_score) clip_range_score)) costs))"

section \<open>The Lagrange multiplier\<close>

text \<open>
  The controller step of \<^verbatim>\<open>rl_step\<close>:
  \<^verbatim>\<open>
  if is_main_process() and self.global_step >= self.lambda_update_delay_steps:
      lambda_loss = -(episode_cost - self.threshold) * self.log_lambda.exp()
      lambda_loss = torch.clamp(lambda_loss, min=-1e6, max=1e6)
      self.log_lambda_optimizer.zero_grad()
      lambda_loss.backward()
      self.log_lambda_optimizer.step()
      if self.log_lambda_max is not None:
          with torch.no_grad():
              self.log_lambda.clamp_(max=self.log_lambda_max)\<close>
  \<open>episode_cost\<close> is the mean of the episode cost window after the reduction over the
  workers. The optimizer is \<^verbatim>\<open>torch.optim.SGD([self.log_lambda], lr=self.args.lambda_lr)\<close>
  without momentum or weight decay, so a step replaces the parameter by
  \<open>param - lr * grad\<close>.
\<close>

definition lambda_loss :: "real \<Rightarrow> real \<Rightarrow> real \<Rightarrow> real" where
  "lambda_loss episode_cost threshold log_lambda =
     clamp (- (episode_cost - threshold) * exp log_lambda) (- 1000000) 1000000"

text \<open>
  \<^verbatim>\<open>lambda_loss.backward()\<close> leaves in \<^verbatim>\<open>log_lambda.grad\<close> the derivative of the
  clamped loss with respect to \<open>log_lambda\<close>. The derivative of
  \<open>- (episode_cost - threshold) * exp log_lambda\<close> is that same expression; the clamp
  passes a gradient on where its argument lies in \<open>[-1e6, 1e6]\<close> and gives zero where the
  argument is outside.
\<close>

definition lambda_loss_grad :: "real \<Rightarrow> real \<Rightarrow> real \<Rightarrow> real" where
  "lambda_loss_grad episode_cost threshold log_lambda =
     (let raw = - (episode_cost - threshold) * exp log_lambda
      in if - 1000000 \<le> raw \<and> raw \<le> 1000000 then raw else 0)"

definition sgd_step :: "real \<Rightarrow> real \<Rightarrow> real \<Rightarrow> real" where
  "sgd_step lr param grad = param - lr * grad"

text \<open>\<open>log_lambda\<close> after the optimizer step, before the clamp to the upper bound.\<close>

definition lagrange_update :: "real \<Rightarrow> real \<Rightarrow> real \<Rightarrow> real \<Rightarrow> real" where
  "lagrange_update lr episode_cost threshold log_lambda =
     sgd_step lr log_lambda (lambda_loss_grad episode_cost threshold log_lambda)"

text \<open>The whole guarded step; \<open>log_lambda_max\<close> is \<open>None\<close> when no bound is configured.\<close>

definition lagrange_controller_step ::
  "bool \<Rightarrow> nat \<Rightarrow> nat \<Rightarrow> real \<Rightarrow> real option \<Rightarrow> real \<Rightarrow> real \<Rightarrow> real \<Rightarrow> real" where
  "lagrange_controller_step is_main_process global_step lambda_update_delay_steps lr
       log_lambda_max episode_cost threshold log_lambda =
     (if is_main_process \<and> global_step \<ge> lambda_update_delay_steps
      then (let stepped = lagrange_update lr episode_cost threshold log_lambda
            in case log_lambda_max of None \<Rightarrow> stepped | Some m \<Rightarrow> min stepped m)
      else log_lambda)"

section \<open>The blended advantage\<close>

text \<open>
  The first two statements of \<^verbatim>\<open>actor_loss_fn_with_cost\<close>:
  \<^verbatim>\<open>
  multiplier = self.log_lambda.exp().item()
  advantages = (reward_advantages - multiplier * cost_advantages) / (1.0 + multiplier)\<close>
  \<open>log_lambda\<close> is a double (\<^verbatim>\<open>torch.tensor(np.log(self.args.lambda_init))\<close>), and the
  exponential of a double is a double: to the nearest double, \<open>exp x\<close> is exactly zero
  once it is at most \<open>2 ^ -1075\<close>, half of the least positive double, that is for
  \<open>x \<le> - 1075 * ln 2\<close> (about \<open>-745.13\<close>). Since the sign of the multiplier is what the
  specification argues from, this underflow is part of the model; above the threshold the
  exponential is idealised as the real one, like every other tensor entry.
\<close>

definition exp_underflow :: real where
  "exp_underflow = - 1075 * ln 2"

definition multiplier :: "real \<Rightarrow> real" where
  "multiplier log_lambda = (if log_lambda \<le> exp_underflow then 0 else exp log_lambda)"

text \<open>
  \<open>blend\<close> is one entry of \<open>advantages\<close> as a function of the multiplier;
  \<open>actor_advantages\<close> is the tensor, for advantages of one shape.
\<close>

definition blend :: "real \<Rightarrow> real \<Rightarrow> real \<Rightarrow> real" where
  "blend m reward_advantage cost_advantage =
     (reward_advantage - m * cost_advantage) / (1 + m)"

definition actor_advantages ::
  "real \<Rightarrow> real list list \<Rightarrow> real list list \<Rightarrow> error + real list list" where
  "actor_advantages log_lambda reward_advantages cost_advantages =
     (if map length reward_advantages = map length cost_advantages
      then Inr (map2 (map2 (blend (multiplier log_lambda))) reward_advantages cost_advantages)
      else Inl RuntimeError)"

section \<open>The advantage targets of one update step\<close>

text \<open>
  The part of \<^verbatim>\<open>rl_step\<close> that builds the sequence mask and the targets of the
  update:
  \<^verbatim>\<open>
  sequence_mask = torch.ones_like(response_mask, dtype=torch.bool)
  new_size = min(sequence_mask.size(-1), old_reward_values.size(-1), old_cost_values.size(-1))
  sequence_mask = sequence_mask[:, :new_size]
  old_reward_values = old_reward_values[:, :new_size]
  old_cost_values = old_cost_values[:, :new_size]
  old_rewards, old_costs = self.add_kl_divergence_regularization_with_cost(
      reward, cost, old_log_probs, ref_log_probs, sequence_mask)
  reward_advantages, reward_returns = self.get_advantages_and_returns(
      old_reward_values, old_rewards, sequence_mask, start=0)
  cost_advantages, cost_returns = self.get_advantages_and_returns(
      old_cost_values, old_costs, sequence_mask, start=0)\<close>
  \<open>size_last\<close> is \<^verbatim>\<open>size(-1)\<close> of a tensor given by its rows (all of one length).
\<close>

definition size_last :: "'a list list \<Rightarrow> nat" where
  "size_last t = (case t of [] \<Rightarrow> 0 | row # _ \<Rightarrow> length row)"

definition ones_like :: "'a list list \<Rightarrow> bool list list" where
  "ones_like t = map (map (\<lambda>_. True)) t"

definition rl_step_new_size :: "bool list list \<Rightarrow> real list list \<Rightarrow> real list list \<Rightarrow> nat" where
  "rl_step_new_size response_mask old_reward_values old_cost_values =
     min (size_last (ones_like response_mask))
       (min (size_last old_reward_values) (size_last old_cost_values))"

definition rl_step_sequence_mask ::
  "bool list list \<Rightarrow> real list list \<Rightarrow> real list list \<Rightarrow> bool list list" where
  "rl_step_sequence_mask response_mask old_reward_values old_cost_values =
     (let sequence_mask = ones_like response_mask;
          new_size = rl_step_new_size response_mask old_reward_values old_cost_values
      in map (take new_size) sequence_mask)"

record rl_targets =
  old_rewards :: "real list list"
  old_costs :: "real list list"
  reward_advantages :: "real list list"
  reward_returns :: "real list list"
  cost_advantages :: "real list list"
  cost_returns :: "real list list"

definition rl_step_targets ::
  "real \<Rightarrow> real \<Rightarrow> real \<Rightarrow> real \<Rightarrow> real list \<Rightarrow> real list \<Rightarrow> real list list \<Rightarrow> real list list
     \<Rightarrow> real list list \<Rightarrow> real list list \<Rightarrow> bool list list \<Rightarrow> error + rl_targets" where
  "rl_step_targets gamma gae_lambda kl_coeff clip_range_score reward cost
       old_log_probs ref_log_probs old_reward_values0 old_cost_values0 response_mask =
     (let new_size = rl_step_new_size response_mask old_reward_values0 old_cost_values0;
          sequence_mask = rl_step_sequence_mask response_mask old_reward_values0 old_cost_values0;
          old_reward_values = map (take new_size) old_reward_values0;
          old_cost_values = map (take new_size) old_cost_values0
      in case add_kl_divergence_regularization_with_cost kl_coeff clip_range_score
                reward cost old_log_probs ref_log_probs sequence_mask of
           Inl e \<Rightarrow> Inl e
         | Inr (rewards, costs) \<Rightarrow>
           (case get_advantages_and_returns gamma gae_lambda old_reward_values rewards
                   sequence_mask 0 of
              Inl e \<Rightarrow> Inl e
            | Inr (r_adv, r_ret) \<Rightarrow>
              (case get_advantages_and_returns gamma gae_lambda old_cost_values costs
                      sequence_mask 0 of
                 Inl e \<Rightarrow> Inl e
               | Inr (c_adv, c_ret) \<Rightarrow>
                   Inr \<lparr>old_rewards = rewards, old_costs = costs,
                        reward_advantages = r_adv, reward_returns = r_ret,
                        cost_advantages = c_adv, cost_returns = c_ret\<rparr>)))"

section \<open>Response lengths\<close>

text \<open>
  The length derivation at the end of \<^verbatim>\<open>actor_step\<close>:
  \<^verbatim>\<open>
  response_lens = []
  batch_size = sequences.size(0)
  for idx in range(batch_size):
      prompt_length = mini_prompt_only_batch['input_ids'][idx].size(-1) -1
      response = sequences[idx].squeeze()[prompt_length:].tolist()
      response_wo_pad = remove_pad_tokens(response=response, pad_token_id=self.tokenizer.pad_token_id)
      response_lens.append(len(response_wo_pad))\<close>
  Token ids are integers. \<open>slice_from xs i\<close> is Python's \<^verbatim>\<open>xs[i:]\<close>, where a negative
  \<open>i\<close> counts from the end. \<^verbatim>\<open>squeeze()\<close> turns a row of exactly one token into a
  tensor without dimensions, and slicing that raises \<^verbatim>\<open>IndexError\<close>.
\<close>

definition slice_from :: "'a list \<Rightarrow> int \<Rightarrow> 'a list" where
  "slice_from xs i =
     (if i < 0 then drop (nat (int (length xs) + i)) xs else drop (nat i) xs)"

definition response_of :: "int list \<Rightarrow> int list \<Rightarrow> error + int list" where
  "response_of prompt_input_ids sequence =
     (let prompt_length = int (length prompt_input_ids) - 1
      in if length sequence = 1 then Inl IndexError
         else Inr (slice_from sequence prompt_length))"

text \<open>
  \<^verbatim>\<open>remove_pad_tokens\<close> is imported from \<^verbatim>\<open>align_anything.utils.tools\<close>, which is not
  among the sources; the length derivation takes it as a parameter.
\<close>

definition actor_step_response_lens ::
  "(int list \<Rightarrow> int \<Rightarrow> int list) \<Rightarrow> int \<Rightarrow> int list list \<Rightarrow> int list list \<Rightarrow> error + nat list"
  where
  "actor_step_response_lens remove_pad pad_token_id prompt_input_ids sequences =
     collect
       (map (\<lambda>idx.
               if idx < length prompt_input_ids
               then (case response_of (prompt_input_ids ! idx) (sequences ! idx) of
                       Inl e \<Rightarrow> Inl e
                     | Inr response \<Rightarrow> Inr (length (remove_pad response pad_token_id)))
               else Inl IndexError)
          [0..<length sequences])"

text \<open>
  Modelled from the spec: \<^verbatim>\<open>remove_pad_tokens\<close>, whose code is missing from the sources.
  The specification says of it: ``trailing pad tokens are stripped to obtain the true
  response length''.
\<close>

definition remove_pad_tokens :: "int list \<Rightarrow> int \<Rightarrow> int list" where
  "remove_pad_tokens response pad_token_id =
     rev (dropWhile (\<lambda>token. token = pad_token_id) (rev response))"

section \<open>Tokenizer checks at model initialization\<close>

text \<open>
  \<^verbatim>\<open>init_models_with_cost_model\<close> loads six models from four configured paths: the actor
  and its reference from \<^verbatim>\<open>actor_model_name_or_path\<close>, the reward model, the reward critic,
  and both the cost model and the cost critic from \<^verbatim>\<open>cost_model_name_or_path\<close>
  (\<^verbatim>\<open>cost_critic_model_name_or_path = self.cfgs.model_cfgs.cost_model_name_or_path\<close>).
  The loaders are not among the sources; \<open>tokenizer_of\<close> is the tokenizer they return for a
  path.
\<close>

record model_cfgs =
  actor_model_name_or_path :: string
  reward_model_name_or_path :: string
  reward_critic_model_name_or_path :: string
  cost_model_name_or_path :: string

record 'tok tokenizers =
  tokenizer :: 'tok
  reward_tokenizer :: 'tok
  reward_critic_tokenizer :: 'tok
  cost_tokenizer :: 'tok
  cost_critic_tokenizer :: 'tok

definition load_tokenizers :: "(string \<Rightarrow> 'tok) \<Rightarrow> model_cfgs \<Rightarrow> 'tok tokenizers" where
  "load_tokenizers tokenizer_of cfgs =
     (let cost_critic_model_name_or_path = cost_model_name_or_path cfgs
      in \<lparr>tokenizer = tokenizer_of (actor_model_name_or_path cfgs),
          reward_tokenizer = tokenizer_of (reward_model_name_or_path cfgs),
          reward_critic_tokenizer = tokenizer_of (reward_critic_model_name_or_path cfgs),
          cost_tokenizer = tokenizer_of (cost_model_name_or_path cfgs),
          cost_critic_tokenizer = tokenizer_of cost_critic_model_name_or_path\<rparr>)"

text \<open>
  The ``initial checking'' and ``training setup'' that follow the loading:
  \<^verbatim>\<open>
  if is_same_tokenizer(self.tokenizer, self.cost_tokenizer):
      self.reward_tokenizer = self.tokenizer
  if not is_same_tokenizer(self.tokenizer, self.reward_critic_tokenizer):
      raise ValueError('Reward critic tokenizer must be the same as actor tokenizer. ...')
  self.reward_critic_tokenizer = self.tokenizer
  self.cost_tokenizer = self.tokenizer
  self.cost_critic_tokenizer = self.tokenizer\<close>
  \<^verbatim>\<open>is_same_tokenizer\<close> is imported from \<^verbatim>\<open>align_anything.utils.tools\<close>, which is not
  among the sources: it is a parameter, as are the two renderings of a tokenizer that the
  message formats (the qualified name of its type and its vocabulary size).
\<close>

definition reward_critic_message :: "('tok \<Rightarrow> string) \<Rightarrow> ('tok \<Rightarrow> string) \<Rightarrow> 'tok \<Rightarrow> 'tok \<Rightarrow> string" where
  "reward_critic_message type_name vocab_size actor critic =
     ''Reward critic tokenizer must be the same as actor tokenizer. ''
     @ ''Expected '' @ type_name actor @ ''(vocab_size='' @ vocab_size actor @ ''), ''
     @ ''but got '' @ type_name critic @ ''(vocab_size='' @ vocab_size critic @ ''). ''
     @ ''Please consider pass `--reward_critic_model_name_or_path` from the command line.''"

definition initial_checking ::
  "('tok \<Rightarrow> 'tok \<Rightarrow> bool) \<Rightarrow> ('tok \<Rightarrow> string) \<Rightarrow> ('tok \<Rightarrow> string) \<Rightarrow> 'tok tokenizers
     \<Rightarrow> error + 'tok tokenizers" where
  "initial_checking is_same_tokenizer type_name vocab_size loaded =
     (let s = (if is_same_tokenizer (tokenizer loaded) (cost_tokenizer loaded)
               then loaded\<lparr>reward_tokenizer := tokenizer loaded\<rparr> else loaded)
      in if \<not> is_same_tokenizer (tokenizer s) (reward_critic_tokenizer s)
         then Inl (ValueError (reward_critic_message type_name vocab_size
                                 (tokenizer s) (reward_critic_tokenizer s)))
         else Inr (s\<lparr>reward_critic_tokenizer := tokenizer s,
                      cost_tokenizer := tokenizer s,
                      cost_critic_tokenizer := tokenizer s\<rparr>))"

definition init_models_with_cost_model ::
  "('tok \<Rightarrow> 'tok \<Rightarrow> bool) \<Rightarrow> ('tok \<Rightarrow> string) \<Rightarrow> ('tok \<Rightarrow> string) \<Rightarrow> (string \<Rightarrow> 'tok)
     \<Rightarrow> model_cfgs \<Rightarrow> error + 'tok tokenizers" where
  "init_models_with_cost_model is_same_tokenizer type_name vocab_size tokenizer_of cfgs =
     initial_checking is_same_tokenizer type_name vocab_size (load_tokenizers tokenizer_of cfgs)"

section \<open>The preference collators\<close>

text \<open>
  \<^verbatim>\<open>PreferenceCollator.__call__\<close> and \<^verbatim>\<open>PreferenceCollator_ours.__call__\<close> of
  \<^verbatim>\<open>new_preference.py\<close>. A sample is the dictionary \<^verbatim>\<open>pre_tokenize\<close> builds. Its
  \<^verbatim>\<open>pixel_values\<close> entry is \<open>None\<close> when the key is absent, \<open>Patches\<close> for a tensor of
  four dimensions (a stack of image patches) and \<open>Image\<close> for any other tensor; images of
  one batch are taken to have one shape, so that concatenating and stacking them
  succeeds.
\<close>

datatype 'img pixel_tensor = Patches "'img list" | Image 'img

record 'img sample =
  better_input_ids :: "int list"
  worse_input_ids :: "int list"
  better_response_lens :: nat
  worse_response_lens :: nat
  pixel_values :: "'img pixel_tensor option"

record 'img sample_ours = "'img sample" +
  is_better_safe :: string
  is_worse_safe :: string

record 'img batch =
  batch_input_ids :: "int list list"
  batch_attention_mask :: "bool list list"
  batch_better_response_lens :: "nat list"
  batch_worse_response_lens :: "nat list"
  batch_response_lens :: "nat list"
  batch_image_sizes :: "nat list option"
  batch_pixel_values :: "'img list option"

record 'img batch_ours = "'img batch" +
  batch_is_better_safe :: "string list"
  batch_is_worse_safe :: "string list"

text \<open>
  The pixel part, from the \<^verbatim>\<open>pixel_values\<close> entries of the samples in order. Only the
  first sample decides whether and how the images are collated; a later sample without
  the key raises \<^verbatim>\<open>KeyError\<close>, and a later tensor of the other kind makes
  \<^verbatim>\<open>torch.cat\<close> or \<^verbatim>\<open>torch.stack\<close> fail.
  \<^verbatim>\<open>
  if 'pixel_values' in samples[0].keys():
      if samples[0]['pixel_values'].dim() == 4:
          ori_patches = [sample['pixel_values'].to(current_device).size(0) for sample in samples]
          ori_patches_tensor = torch.tensor(ori_patches)
          return_dict['image_sizes'] = torch.cat([ori_patches_tensor, ori_patches_tensor], dim=0)
          pixel_values_tensor = torch.cat(_pixel_values_list, dim=0)
          return_dict['pixel_values'] = torch.cat([pixel_values_tensor, pixel_values_tensor], dim=0)
      else:
          pixel_values_tensor = torch.stack([sample['pixel_values'] for sample in samples])
          return_dict['pixel_values'] = torch.cat([pixel_values_tensor, pixel_values_tensor], dim=0)\<close>
\<close>

definition present :: "'img pixel_tensor option \<Rightarrow> error + 'img pixel_tensor" where
  "present pv = (case pv of None \<Rightarrow> Inl KeyError | Some t \<Rightarrow> Inr t)"

definition as_patches :: "'img pixel_tensor \<Rightarrow> error + 'img list" where
  "as_patches t = (case t of Patches ps \<Rightarrow> Inr ps | Image _ \<Rightarrow> Inl RuntimeError)"

definition as_image :: "'img pixel_tensor \<Rightarrow> error + 'img" where
  "as_image t = (case t of Image im \<Rightarrow> Inr im | Patches _ \<Rightarrow> Inl RuntimeError)"

definition collate_patches ::
  "'img pixel_tensor option list \<Rightarrow> error + nat list option \<times> 'img list option" where
  "collate_patches pvs =
     (case collect (map present pvs) of Inl e \<Rightarrow> Inl e
      | Inr tensors \<Rightarrow>
        (case collect (map as_patches tensors) of Inl e \<Rightarrow> Inl e
         | Inr patches \<Rightarrow>
             let ori_patches = map length patches;
                 pixel_values_tensor = concat patches
             in Inr (Some (ori_patches @ ori_patches),
                     Some (pixel_values_tensor @ pixel_values_tensor))))"

definition collate_images ::
  "'img pixel_tensor option list \<Rightarrow> error + nat list option \<times> 'img list option" where
  "collate_images pvs =
     (case collect (map present pvs) of Inl e \<Rightarrow> Inl e
      | Inr tensors \<Rightarrow>
        (case collect (map as_image tensors) of Inl e \<Rightarrow> Inl e
         | Inr pixel_values_tensor \<Rightarrow>
             Inr (None, Some (pixel_values_tensor @ pixel_values_tensor))))"

definition collate_pixels ::
  "'img pixel_tensor option list \<Rightarrow> error + nat list option \<times> 'img list option" where
  "collate_pixels pvs =
     (case pvs of
        [] \<Rightarrow> Inl IndexError
      | first # _ \<Rightarrow>
          (case first of
             None \<Rightarrow> Inr (None, None)
           | Some t \<Rightarrow>
               (case t of Patches _ \<Rightarrow> collate_patches pvs | Image _ \<Rightarrow> collate_images pvs)))"

text \<open>
  The statements the two collators share. \<^verbatim>\<open>right_padding\<close> is imported from
  \<^verbatim>\<open>align_anything.utils.tools\<close>, which is not among the sources: the collator takes it
  as a parameter, once for the token rows and once for the mask rows.
  \<^verbatim>\<open>
  input_ids = [sample['better_input_ids'] for sample in samples] + [
      sample['worse_input_ids'] for sample in samples]
  return_dict['input_ids'] = right_padding(input_ids, padding_value=self.pad_token_id)
  attention_mask = [input_id.new_ones(input_id.size(), dtype=torch.bool) for input_id in input_ids]
  return_dict['attention_mask'] = right_padding(attention_mask, padding_value=0)
  return_dict['better_response_lens'] = [sample['better_response_lens'] for sample in samples]
  return_dict['worse_response_lens'] = [sample['worse_response_lens'] for sample in samples]
  return_dict['response_lens'] = return_dict['better_response_lens'] + return_dict['worse_response_lens']\<close>
\<close>

definition collate ::
  "(int list list \<Rightarrow> int \<Rightarrow> int list list) \<Rightarrow> (bool list list \<Rightarrow> bool \<Rightarrow> bool list list) \<Rightarrow> int
     \<Rightarrow> ('img, 'more) sample_scheme list \<Rightarrow> error + 'img batch" where
  "collate right_padding_ids right_padding_mask pad_token_id samples =
     (let input_ids = map better_input_ids samples @ map worse_input_ids samples;
          attention_mask = map (map (\<lambda>_. True)) input_ids;
          better = map better_response_lens samples;
          worse = map worse_response_lens samples
      in case collate_pixels (map pixel_values samples) of
           Inl e \<Rightarrow> Inl e
         | Inr (sizes, pixels) \<Rightarrow>
             Inr \<lparr>batch_input_ids = right_padding_ids input_ids pad_token_id,
                  batch_attention_mask = right_padding_mask attention_mask False,
                  batch_better_response_lens = better,
                  batch_worse_response_lens = worse,
                  batch_response_lens = better @ worse,
                  batch_image_sizes = sizes,
                  batch_pixel_values = pixels\<rparr>)"

definition PreferenceCollator_call ::
  "(int list list \<Rightarrow> int \<Rightarrow> int list list) \<Rightarrow> (bool list list \<Rightarrow> bool \<Rightarrow> bool list list) \<Rightarrow> int
     \<Rightarrow> 'img sample list \<Rightarrow> error + 'img batch" where
  "PreferenceCollator_call right_padding_ids right_padding_mask pad_token_id samples =
     collate right_padding_ids right_padding_mask pad_token_id samples"

text \<open>
  \<^verbatim>\<open>PreferenceCollator_ours\<close> adds
  \<^verbatim>\<open>return_dict['is_better_safe'] = [sample['is_better_safe'] for sample in samples]\<close> and
  the same for \<^verbatim>\<open>is_worse_safe\<close>.
\<close>

definition PreferenceCollator_ours_call ::
  "(int list list \<Rightarrow> int \<Rightarrow> int list list) \<Rightarrow> (bool list list \<Rightarrow> bool \<Rightarrow> bool list list) \<Rightarrow> int
     \<Rightarrow> 'img sample_ours list \<Rightarrow> error + 'img batch_ours" where
  "PreferenceCollator_ours_call right_padding_ids right_padding_mask pad_token_id samples =
     (case collate right_padding_ids right_padding_mask pad_token_id samples of
        Inl e \<Rightarrow> Inl e
      | Inr b \<Rightarrow>
          Inr (batch.extend b
                 \<lparr>batch_is_better_safe = map is_better_safe samples,
                  batch_is_worse_safe = map is_worse_safe samples\<rparr>))"

text \<open>
  What the collators need of \<^verbatim>\<open>right_padding\<close>: one row per sequence, in order, each
  the sequence followed by padding values. \<open>pad_right\<close>, which pads every row to the
  longest, is such a function; it runs the collators on concrete samples.
\<close>

definition pads_right :: "('a list list \<Rightarrow> 'a \<Rightarrow> 'a list list) \<Rightarrow> bool" where
  "pads_right rp \<longleftrightarrow>
     (\<forall>seqs v. length (rp seqs v) = length seqs \<and>
        (\<forall>i < length seqs. \<exists>k. rp seqs v ! i = seqs ! i @ replicate k v))"

definition pad_right :: "'a list list \<Rightarrow> 'a \<Rightarrow> 'a list list" where
  "pad_right seqs v =
     map (\<lambda>s. s @ replicate (foldr max (map length seqs) 0 - length s) v) seqs"

text \<open>The images a sample contributes, and samples whose pixel entries are of one kind.\<close>

definition images_of :: "'img pixel_tensor option \<Rightarrow> 'img list" where
  "images_of pv = (case pv of None \<Rightarrow> [] | Some (Patches ps) \<Rightarrow> ps | Some (Image im) \<Rightarrow> [im])"

definition same_kind :: "'img pixel_tensor option \<Rightarrow> 'img pixel_tensor option \<Rightarrow> bool" where
  "same_kind first pv =
     (case first of
        None \<Rightarrow> True
      | Some (Patches _) \<Rightarrow> (case pv of Some (Patches _) \<Rightarrow> True | _ \<Rightarrow> False)
      | Some (Image _) \<Rightarrow> (case pv of Some (Image _) \<Rightarrow> True | _ \<Rightarrow> False))"

section \<open>The episode cost window\<close>

text \<open>
  \<^verbatim>\<open>self.episode_costs = deque(maxlen=self.args.episode_cost_window_size)\<close>.
  A bounded deque appends on the right and, when the new length exceeds \<open>maxlen\<close>,
  pops one element on the left.
\<close>

definition episode_cost_window_size :: nat where
  "episode_cost_window_size = 128"

definition deque_append :: "nat \<Rightarrow> 'a list \<Rightarrow> 'a \<Rightarrow> 'a list" where
  "deque_append maxlen d x =
     (let d' = d @ [x] in if length d' > maxlen then tl d' else d')"

definition deque_extend :: "nat \<Rightarrow> 'a list \<Rightarrow> 'a list \<Rightarrow> 'a list" where
  "deque_extend maxlen d xs = foldl (deque_append maxlen) d xs"

text \<open>
  The effect of \<^verbatim>\<open>cost_model_step\<close> on the window:
  \<^verbatim>\<open>self.episode_costs.extend(cost_batch['cost'].tolist())\<close>, where \<open>cost\<close> holds the
  scalar cost of each trajectory of the batch, in batch order.
\<close>

definition cost_model_step_window :: "nat \<Rightarrow> real list \<Rightarrow> real list \<Rightarrow> real list" where
  "cost_model_step_window maxlen episode_costs cost = deque_extend maxlen episode_costs cost"

text \<open>The window after a run of cost-scoring steps, starting from the empty deque.\<close>

definition episode_costs_after :: "nat \<Rightarrow> real list list \<Rightarrow> real list" where
  "episode_costs_after maxlen batches = foldl (cost_model_step_window maxlen) [] batches"

section \<open>Rows without errors\<close>

lemma collect_map_Inr:
  "(\<And>x. x \<in> set xs \<Longrightarrow> f x = Inr (g x)) \<Longrightarrow> collect (map f xs) = Inr (map g xs)"
  by (induction xs) simp_all

section \<open>Properties of the advantage estimator\<close>

declare gae_recurrence.simps [simp del]

lemma gae_recurrence_end: "length r \<le> t \<Longrightarrow> gae_recurrence g l V r t = 0"
  by (subst gae_recurrence.simps) simp

lemma gae_recurrence_step:
  "t < length r \<Longrightarrow>
   gae_recurrence g l V r t =
     (r ! t + g * (if Suc t < length r then V ! Suc t else 0) - V ! t)
       + g * l * gae_recurrence g l V r (Suc t)"
  by (subst gae_recurrence.simps) simp

lemma gae_fold:
  "s \<le> n \<Longrightarrow> n = length r \<Longrightarrow>
   foldr (\<lambda>t st. gae_step g l V r n st t) [s..<n] (0, []) =
     (gae_recurrence g l V r s, rev (map (gae_recurrence g l V r) [s..<n]))"
proof (induction "n - s" arbitrary: s)
  case 0
  then show ?case by (simp add: gae_recurrence_end)
next
  case (Suc k)
  then have lt: "s < n" and k: "k = n - Suc s" and le: "Suc s \<le> n" by auto
  have up: "[s..<n] = s # [Suc s..<n]" using lt by (simp add: upt_conv_Cons)
  have nx: "(int s < int n - 1) = (Suc s < n)" by auto
  show ?case
    unfolding up using Suc.hyps(1) [OF k le Suc.prems(2)] lt Suc.prems(2)
    by (simp add: gae_step_def Let_def nx gae_recurrence_step [of s r])
qed

lemma masked_nth: "length xs = length ms \<Longrightarrow> t < length ms \<Longrightarrow> masked xs ms ! t = xs ! t * of_bool (ms ! t)"
  by (simp add: masked_def)

lemma masked_length: "length xs = length ms \<Longrightarrow> length (masked xs ms) = length ms"
  by (simp add: masked_def)

lemma gae_row_result:
  assumes v: "length values = length sequence_mask" and r: "length rewards = length sequence_mask"
    and s: "start < length sequence_mask"
  shows "get_advantages_and_returns_row g l values rewards sequence_mask start =
           Inr (map (gae_recurrence g l (masked values sequence_mask) (masked rewards sequence_mask)) [start..<length sequence_mask],
                map (\<lambda>t. gae_recurrence g l (masked values sequence_mask) (masked rewards sequence_mask) t
                           + masked values sequence_mask ! t) [start..<length sequence_mask])"
proof -
  let ?V = "masked values sequence_mask" and ?r = "masked rewards sequence_mask" and ?n = "length sequence_mask"
  have n: "length ?r = ?n" "length ?V = ?n" using v r by (simp_all add: masked_length)
  have f: "foldl (gae_step g l ?V ?r ?n) (0, []) (rev [start..<?n]) =
        (gae_recurrence g l ?V ?r start, rev (map (gae_recurrence g l ?V ?r) [start..<?n]))"
  proof -
    have "start \<le> ?n" using s by simp
    from gae_fold [OF this n(1) [symmetric], of g l ?V] show ?thesis
      by (simp add: foldr_conv_foldl)
  qed
  have ne: "[start..<?n] \<noteq> []" using s by auto
  have d: "drop start ?V = map ((!) ?V) [start..<?n]"
  proof -
    have "drop start ?V = drop start (map ((!) ?V) [0..<length ?V])" by (simp only: map_nth)
    also have "\<dots> = map ((!) ?V) [start..<?n]" by (simp add: drop_map n)
    finally show ?thesis .
  qed
  have z: "map2 (+) (map (gae_recurrence g l ?V ?r) [start..<?n]) (map ((!) ?V) [start..<?n])
      = map (\<lambda>t. gae_recurrence g l ?V ?r t + ?V ! t) [start..<?n]"
    by (simp add: zip_map_map map_zip_map  zip_same_conv_map)
  show ?thesis
    using v r ne
    by (simp add: get_advantages_and_returns_row_def mul_mask_def Let_def n f d z)
qed


lemma gae_batch_result:
  assumes v: "length values = length sequence_mask" and r: "length rewards = length sequence_mask"
    and rows: "\<And>i. i < length sequence_mask \<Longrightarrow>
        length (values ! i) = length (sequence_mask ! i) \<and> length (rewards ! i) = length (sequence_mask ! i)
        \<and> start < length (sequence_mask ! i)"
  shows "get_advantages_and_returns g l values rewards sequence_mask start =
           Inr (map (\<lambda>i. map (gae_recurrence g l (masked (values ! i) (sequence_mask ! i)) (masked (rewards ! i) (sequence_mask ! i)))
                          [start..<length (sequence_mask ! i)]) [0..<length sequence_mask],
                map (\<lambda>i. map (\<lambda>t. gae_recurrence g l (masked (values ! i) (sequence_mask ! i)) (masked (rewards ! i) (sequence_mask ! i)) t
                                   + masked (values ! i) (sequence_mask ! i) ! t)
                          [start..<length (sequence_mask ! i)]) [0..<length sequence_mask])"
proof -
  let ?A = "\<lambda>v r m. map (gae_recurrence g l (masked v m) (masked r m)) [start..<length m]"
  let ?R = "\<lambda>v r m. map (\<lambda>t. gae_recurrence g l (masked v m) (masked r m) t + masked v m ! t) [start..<length m]"
  let ?z = "zip values (zip rewards sequence_mask)"
  have zl: "length ?z = length sequence_mask" using v r by simp
  have zn: "\<And>i. i < length sequence_mask \<Longrightarrow> ?z ! i = (values ! i, rewards ! i, sequence_mask ! i)"
    using v r by simp
  have each: "\<And>x. x \<in> set ?z \<Longrightarrow>
     (\<lambda>(v, r, m). get_advantages_and_returns_row g l v r m start) x
       = Inr ((\<lambda>(v, r, m). (?A v r m, ?R v r m)) x)"
  proof -
    fix x assume "x \<in> set ?z"
    then obtain i where i: "i < length sequence_mask" and x: "x = ?z ! i"
      using zl by (metis in_set_conv_nth)
    show "(\<lambda>(v, r, m). get_advantages_and_returns_row g l v r m start) x
       = Inr ((\<lambda>(v, r, m). (?A v r m, ?R v r m)) x)"
      using rows [OF i] by (simp add: x zn [OF i] gae_row_result)
  qed
  have c: "collect (map (\<lambda>(v, r, m). get_advantages_and_returns_row g l v r m start) ?z)
        = Inr (map (\<lambda>(v, r, m). (?A v r m, ?R v r m)) ?z)"
    by (rule collect_map_Inr) (rule each)
  have m1: "map fst (map (\<lambda>(v, r, m). (?A v r m, ?R v r m)) ?z)
        = map (\<lambda>i. ?A (values ! i) (rewards ! i) (sequence_mask ! i)) [0..<length sequence_mask]"
    by (rule nth_equalityI) (simp_all add: zl zn v r)
  have m2: "map snd (map (\<lambda>(v, r, m). (?A v r m, ?R v r m)) ?z)
        = map (\<lambda>i. ?R (values ! i) (rewards ! i) (sequence_mask ! i)) [0..<length sequence_mask]"
    by (rule nth_equalityI) (simp_all add: zl zn v r)
  show ?thesis
    unfolding get_advantages_and_returns_def using v r by (simp only: c m1 m2 simp_thms if_True sum.case)
qed


lemma gae_recurrence_zero:
  assumes "\<And>t. t < length r \<Longrightarrow> r ! t = 0" and "\<And>t. t < length r \<Longrightarrow> V ! t = 0"
  shows "gae_recurrence g l V r t = 0"
proof (induction "length r - t" arbitrary: t)
  case 0
  then show ?case by (simp add: gae_recurrence_end)
next
  case (Suc k)
  then have lt: "t < length r" and k: "k = length r - Suc t" by auto
  show ?case
    using Suc.hyps(1) [OF k] lt assms by (simp add: gae_recurrence_step)
qed

text \<open>
  C1. \<^verbatim>\<open>get_advantages_and_returns\<close> implements the backward GAE recurrence. On
  inputs of one shape with at least one position per row and \<open>start = 0\<close> it returns,
  for every row, sequences \<open>A\<close> (advantages) and \<open>returns\<close> of the row's length \<open>R\<close>
  with \<open>A\<^sub>t = \<delta>\<^sub>t + \<gamma> \<lambda> A\<^sub>t\<^sub>+\<^sub>1\<close> (\<open>A\<^sub>R = 0\<close>),
  \<open>\<delta>\<^sub>t = r\<^sub>t + \<gamma> V\<^sub>t\<^sub>+\<^sub>1 mask\<^sub>t\<^sub>+\<^sub>1 - V\<^sub>t\<close> (\<open>V\<^sub>R = 0\<close>) and
  \<open>return\<^sub>t = A\<^sub>t + V\<^sub>t\<close>, where \<open>r\<^sub>t\<close> and \<open>V\<^sub>t\<close> are the reward and the value at
  position \<open>t\<close> as the function masks them (unchanged at a valid position, zero at a
  masked one). For \<open>\<gamma> = 0.9\<close>, \<open>\<lambda> = 0.95\<close>, one valid position, \<open>V = [0]\<close> and
  \<open>r = [1]\<close> the advantage is 1 and the return is 1.
\<close>

theorem get_advantages_and_returns_gae:
  assumes v: "length values = length sequence_mask"
    and r: "length rewards = length sequence_mask"
    and rows: "\<forall>i < length sequence_mask.
        length (values ! i) = length (sequence_mask ! i) \<and>
        length (rewards ! i) = length (sequence_mask ! i) \<and>
        0 < length (sequence_mask ! i)"
  shows "(\<exists>advantages returns.
      get_advantages_and_returns gamma gae_lambda values rewards sequence_mask 0
        = Inr (advantages, returns) \<and>
      length advantages = length sequence_mask \<and>
      length returns = length sequence_mask \<and>
      (\<forall>i < length sequence_mask.
         length (advantages ! i) = length (sequence_mask ! i) \<and>
         length (returns ! i) = length (sequence_mask ! i) \<and>
         (\<forall>t < length (sequence_mask ! i).
            advantages ! i ! t =
              (rewards ! i ! t * of_bool (sequence_mask ! i ! t)
               + gamma * (if Suc t < length (sequence_mask ! i)
                          then values ! i ! Suc t * of_bool (sequence_mask ! i ! Suc t) else 0)
               - values ! i ! t * of_bool (sequence_mask ! i ! t))
              + gamma * gae_lambda *
                  (if Suc t < length (sequence_mask ! i) then advantages ! i ! Suc t else 0) \<and>
            returns ! i ! t =
              advantages ! i ! t + values ! i ! t * of_bool (sequence_mask ! i ! t)))) \<and>
    get_advantages_and_returns 0.9 0.95 [[0]] [[1]] [[True]] 0 = Inr ([[1]], [[1]])"
proof (rule conjI)
  let ?V = "\<lambda>i. masked (values ! i) (sequence_mask ! i)"
  let ?r = "\<lambda>i. masked (rewards ! i) (sequence_mask ! i)"
  let ?n = "\<lambda>i. length (sequence_mask ! i)"
  let ?A = "map (\<lambda>i. map (gae_recurrence gamma gae_lambda (?V i) (?r i)) [0..<?n i])
              [0..<length sequence_mask]"
  let ?R = "map (\<lambda>i. map (\<lambda>t. gae_recurrence gamma gae_lambda (?V i) (?r i) t + ?V i ! t) [0..<?n i])
              [0..<length sequence_mask]"
  have res: "get_advantages_and_returns gamma gae_lambda values rewards sequence_mask 0 = Inr (?A, ?R)"
    by (rule gae_batch_result [OF v r]) (use rows in simp)
  have pt: "?A ! i ! t =
              (rewards ! i ! t * of_bool (sequence_mask ! i ! t)
               + gamma * (if Suc t < ?n i
                          then values ! i ! Suc t * of_bool (sequence_mask ! i ! Suc t) else 0)
               - values ! i ! t * of_bool (sequence_mask ! i ! t))
              + gamma * gae_lambda * (if Suc t < ?n i then ?A ! i ! Suc t else 0) \<and>
            ?R ! i ! t = ?A ! i ! t + values ! i ! t * of_bool (sequence_mask ! i ! t)"
    if i: "i < length sequence_mask" and t: "t < ?n i" for i t
  proof -
    have lv: "length (values ! i) = ?n i" and lr: "length (rewards ! i) = ?n i"
      using rows i by simp_all
    have ln: "length (?r i) = ?n i" by (simp add: masked_length lr)
    have e: "gae_recurrence gamma gae_lambda (?V i) (?r i) (Suc t) = 0" if "\<not> Suc t < ?n i"
      using that by (simp add: gae_recurrence_end ln)
    show ?thesis
      using i t e
      by (simp add: gae_recurrence_step [of t "?r i"] ln masked_nth lv lr)
  qed
  show "\<exists>advantages returns.
      get_advantages_and_returns gamma gae_lambda values rewards sequence_mask 0
        = Inr (advantages, returns) \<and>
      length advantages = length sequence_mask \<and>
      length returns = length sequence_mask \<and>
      (\<forall>i < length sequence_mask.
         length (advantages ! i) = length (sequence_mask ! i) \<and>
         length (returns ! i) = length (sequence_mask ! i) \<and>
         (\<forall>t < length (sequence_mask ! i).
            advantages ! i ! t =
              (rewards ! i ! t * of_bool (sequence_mask ! i ! t)
               + gamma * (if Suc t < length (sequence_mask ! i)
                          then values ! i ! Suc t * of_bool (sequence_mask ! i ! Suc t) else 0)
               - values ! i ! t * of_bool (sequence_mask ! i ! t))
              + gamma * gae_lambda *
                  (if Suc t < length (sequence_mask ! i) then advantages ! i ! Suc t else 0) \<and>
            returns ! i ! t =
              advantages ! i ! t + values ! i ! t * of_bool (sequence_mask ! i ! t)))"
  proof (intro exI conjI allI impI)
    show "get_advantages_and_returns gamma gae_lambda values rewards sequence_mask 0 = Inr (?A, ?R)"
      by (rule res)
  qed (use pt in simp_all)
next
  show "get_advantages_and_returns 0.9 0.95 [[0]] [[1]] [[True]] 0 = Inr ([[1]], [[1]])"
    by (simp add: get_advantages_and_returns_def get_advantages_and_returns_row_def
        mul_mask_def masked_def gae_step_def Let_def)
qed

text \<open>The theorem at a batch of one row with two valid positions.\<close>

theorem get_advantages_and_returns_gae_witness:
  "\<exists>advantages returns.
     get_advantages_and_returns 0.9 0.95 [[1/2, 1/4]] [[1, 2]] [[True, True]] 0
       = Inr (advantages, returns) \<and>
     advantages ! 0 ! 1 = (2 + 0.9 * 0 - 1/4) + 0.9 * 0.95 * 0 \<and>
     advantages ! 0 ! 0 = (1 + 0.9 * (1/4) - 1/2) + 0.9 * 0.95 * advantages ! 0 ! 1 \<and>
     returns ! 0 ! 0 = advantages ! 0 ! 0 + 1/2"
proof -
  have "(\<exists>advantages returns.
      get_advantages_and_returns 0.9 0.95 [[1/2, 1/4]] [[1, 2]] [[True, True]] 0
        = Inr (advantages, returns) \<and>
      length advantages = length [[True, True]] \<and>
      length returns = length [[True, True]] \<and>
      (\<forall>i < length [[True, True]].
         length (advantages ! i) = length ([[True, True]] ! i) \<and>
         length (returns ! i) = length ([[True, True]] ! i) \<and>
         (\<forall>t < length ([[True, True]] ! i).
            advantages ! i ! t =
              ([[1, 2]] ! i ! t * of_bool ([[True, True]] ! i ! t)
               + 0.9 * (if Suc t < length ([[True, True]] ! i)
                          then [[1/2, 1/4]] ! i ! Suc t * of_bool ([[True, True]] ! i ! Suc t) else 0)
               - [[1/2, 1/4]] ! i ! t * of_bool ([[True, True]] ! i ! t))
              + 0.9 * 0.95 *
                  (if Suc t < length ([[True, True]] ! i) then advantages ! i ! Suc t else 0) \<and>
            returns ! i ! t =
              advantages ! i ! t + [[1/2, 1/4]] ! i ! t * of_bool ([[True, True]] ! i ! t)))) \<and>
    get_advantages_and_returns 0.9 0.95 [[0]] [[1]] [[True]] 0 = Inr ([[1]], [[1]])"
    by (rule get_advantages_and_returns_gae) simp_all
  then obtain advantages returns where
    res: "get_advantages_and_returns 0.9 0.95 [[1/2, 1/4]] [[1, 2]] [[True, True]] 0
        = Inr (advantages, returns)"
    and pt: "\<And>i t. i < 1 \<Longrightarrow> t < length ([[True, True]] ! i) \<Longrightarrow>
            advantages ! i ! t =
              ([[1, 2]] ! i ! t * of_bool ([[True, True]] ! i ! t)
               + 0.9 * (if Suc t < length ([[True, True]] ! i)
                          then [[1/2, 1/4]] ! i ! Suc t * of_bool ([[True, True]] ! i ! Suc t) else 0)
               - [[1/2, 1/4]] ! i ! t * of_bool ([[True, True]] ! i ! t))
              + 0.9 * 0.95 *
                  (if Suc t < length ([[True, True]] ! i) then advantages ! i ! Suc t else 0) \<and>
            returns ! i ! t =
              advantages ! i ! t + [[1/2, 1/4]] ! i ! t * of_bool ([[True, True]] ! i ! t)"
    by auto
  from pt [of 0 0] pt [of 0 1] res show ?thesis by (intro exI [of _ advantages] exI [of _ returns]) simp
qed

section \<open>Properties of the KL-penalised streams\<close>

lemma nonzero_set: "set (nonzero m) = {t. t < length m \<and> m ! t}"
  by (auto simp: nonzero_def)

lemma nonzero_sorted: "sorted (nonzero m)"
  unfolding nonzero_def by (rule sorted_wrt_filter) simp

lemma nonzero_distinct: "distinct (nonzero m)"
  by (simp add: nonzero_def)

lemma sorted_le_last: "sorted xs \<Longrightarrow> x \<in> set xs \<Longrightarrow> (x::nat) \<le> last xs"
  by (induction xs) auto

lemma kl_scatter_row_result:
  assumes "length ref_log_probs = length log_probs" and "e < length log_probs"
  shows "kl_scatter_row kl reward cost log_probs ref_log_probs e =
           Inr (map (\<lambda>t. - kl * (log_probs ! t - ref_log_probs ! t) + (if t = e then reward else 0))
                  [0..<length log_probs],
                map (\<lambda>t. kl * (log_probs ! t - ref_log_probs ! t) + (if t = e then cost else 0))
                  [0..<length log_probs])"
proof -
  let ?p = "map (\<lambda>k. - kl * k) (map2 (-) log_probs ref_log_probs)"
  have l: "length ?p = length log_probs" using assms by simp
  have r: "?p[e := ?p ! e + reward] =
        map (\<lambda>t. - kl * (log_probs ! t - ref_log_probs ! t) + (if t = e then reward else 0))
          [0..<length log_probs]"
    by (rule nth_equalityI) (use assms in \<open>simp_all add: nth_list_update\<close>)
  have c: "(map uminus ?p)[e := map uminus ?p ! e + cost] =
        map (\<lambda>t. kl * (log_probs ! t - ref_log_probs ! t) + (if t = e then cost else 0))
          [0..<length log_probs]"
    by (rule nth_equalityI) (use assms in \<open>simp_all add: nth_list_update\<close>)
  have s0: "sub_rows log_probs ref_log_probs = Inr (map2 (-) log_probs ref_log_probs)"
    using assms by (simp add: sub_rows_def)
  have s1: "scatter_add ?p e reward = Inr (?p[e := ?p ! e + reward])"
    using assms l by (simp only: scatter_add_def if_True)
  have s2: "scatter_add (map uminus ?p) e cost = Inr ((map uminus ?p)[e := map uminus ?p ! e + cost])"
    using assms l by (simp only: scatter_add_def length_map if_True)
  show ?thesis
    by (simp only: kl_scatter_row_def s0 Let_def s1 s2 r c sum.case)
qed

lemma end_index_row_nonempty:
  "nonzero m \<noteq> [] \<Longrightarrow> end_index_row m = Inr (last (nonzero m))"
  by (simp add: end_index_row_def)

lemma nonzero_nonempty: "t < length m \<Longrightarrow> m ! t \<Longrightarrow> nonzero m \<noteq> []"
proof -
  assume "t < length m" "m ! t"
  then have "t \<in> set (nonzero m)" by (simp add: nonzero_set)
  then show ?thesis by auto
qed

lemma last_nonzero:
  assumes "nonzero m \<noteq> []"
  shows "last (nonzero m) < length m \<and> m ! last (nonzero m) \<and>
         (\<forall>u. last (nonzero m) < u \<and> u < length m \<longrightarrow> \<not> m ! u)"
proof -
  let ?e = "last (nonzero m)"
  have "?e \<in> set (nonzero m)" using assms by simp
  then have e: "?e < length m" "m ! ?e" by (simp_all add: nonzero_set)
  have "\<not> m ! u" if "?e < u" "u < length m" for u
  proof
    assume "m ! u"
    then have "u \<in> set (nonzero m)" using that by (simp add: nonzero_set)
    then have "u \<le> ?e" by (rule sorted_le_last [OF nonzero_sorted])
    then show False using that by simp
  qed
  then show ?thesis using e by auto
qed

lemma kl_scatter_result:
  assumes lr: "length reward = length sequence_mask"
    and lc: "length cost = length sequence_mask"
    and lp: "length log_probs = length sequence_mask"
    and lq: "length ref_log_probs = length sequence_mask"
    and rows: "\<And>i. i < length sequence_mask \<Longrightarrow>
          length (ref_log_probs ! i) = length (log_probs ! i) \<and>
          length (sequence_mask ! i) \<le> length (log_probs ! i) \<and>
          nonzero (sequence_mask ! i) \<noteq> []"
  shows "kl_scatter kl reward cost log_probs ref_log_probs sequence_mask =
    Inr (map (\<lambda>i. map (\<lambda>t. - kl * (log_probs ! i ! t - ref_log_probs ! i ! t)
                             + (if t = last (nonzero (sequence_mask ! i)) then reward ! i else 0))
                    [0..<length (log_probs ! i)]) [0..<length sequence_mask],
         map (\<lambda>i. map (\<lambda>t. kl * (log_probs ! i ! t - ref_log_probs ! i ! t)
                             + (if t = last (nonzero (sequence_mask ! i)) then cost ! i else 0))
                    [0..<length (log_probs ! i)]) [0..<length sequence_mask])"
proof -
  let ?B = "length sequence_mask"
  let ?E = "map (\<lambda>m. last (nonzero m)) sequence_mask"
  let ?R = "\<lambda>i. map (\<lambda>t. - kl * (log_probs ! i ! t - ref_log_probs ! i ! t)
                             + (if t = last (nonzero (sequence_mask ! i)) then reward ! i else 0))
                    [0..<length (log_probs ! i)]"
  let ?C = "\<lambda>i. map (\<lambda>t. kl * (log_probs ! i ! t - ref_log_probs ! i ! t)
                             + (if t = last (nonzero (sequence_mask ! i)) then cost ! i else 0))
                    [0..<length (log_probs ! i)]"
  have e: "collect (map end_index_row sequence_mask) = Inr ?E"
  proof (rule collect_map_Inr)
    fix m assume "m \<in> set sequence_mask"
    then obtain i where "i < ?B" "m = sequence_mask ! i" by (metis in_set_conv_nth)
    then show "end_index_row m = Inr (last (nonzero m))"
      using rows [of i] by (simp add: end_index_row_nonempty)
  qed
  have r: "collect (map (\<lambda>i. kl_scatter_row kl (reward ! i) (cost ! i)
                                 (log_probs ! i) (ref_log_probs ! i) (?E ! i)) [0..<length ?E])
           = Inr (map (\<lambda>i. (?R i, ?C i)) [0..<length ?E])"
  proof (rule collect_map_Inr)
    fix i assume "i \<in> set [0..<length ?E]"
    then have i: "i < ?B" by simp
    have "last (nonzero (sequence_mask ! i)) < length (sequence_mask ! i)"
      using last_nonzero [of "sequence_mask ! i"] rows [OF i] by simp
    then have "last (nonzero (sequence_mask ! i)) < length (log_probs ! i)"
      using rows [OF i] by simp
    then show "kl_scatter_row kl (reward ! i) (cost ! i) (log_probs ! i) (ref_log_probs ! i) (?E ! i)
          = Inr (?R i, ?C i)"
      using rows [OF i] i by (simp add: kl_scatter_row_result)
  qed
  have sh: "length log_probs = length ?E \<and> length ref_log_probs = length ?E \<and>
           length reward = length ?E \<and> length cost = length ?E"
    using lr lc lp lq by simp
  have m1: "map fst (map (\<lambda>i. (?R i, ?C i)) [0..<length ?E]) = map ?R [0..<?B]"
    by (simp add: comp_def)
  have m2: "map snd (map (\<lambda>i. (?R i, ?C i)) [0..<length ?E]) = map ?C [0..<?B]"
    by (simp add: comp_def)
  show ?thesis
    unfolding kl_scatter_def by (simp only: e sum.case sh if_True simp_thms r m1 m2)
qed

lemma sum_valid_scatter:
  fixes d :: "nat \<Rightarrow> real"
  assumes "e < n" "m ! e"
  shows "(\<Sum>t | t < n \<and> m ! t. - kl * d t + (if t = e then rw else 0))
           = rw - kl * (\<Sum>t | t < n \<and> m ! t. d t)"
proof -
  let ?S = "{t. t < n \<and> m ! t}"
  have f: "finite ?S" by simp
  have e: "e \<in> ?S" using assms by simp
  have "(\<Sum>t\<in>?S. - kl * d t + (if t = e then rw else 0))
        = (\<Sum>t\<in>?S. - kl * d t) + (\<Sum>t\<in>?S. if t = e then rw else 0)"
    by (rule sum.distrib)
  also have "(\<Sum>t\<in>?S. if t = e then rw else 0) = rw"
    using f e by (simp add: sum.delta)
  also have "(\<Sum>t\<in>?S. - kl * d t) = - kl * (\<Sum>t\<in>?S. d t)"
    by (simp only: sum_distrib_left)
  finally show ?thesis by simp
qed

text \<open>
  C3. On a batch of consistent shapes whose mask has at least one valid position in every
  row, the shaped streams are, before clamping, \<open>- kl_coeff * (log_probs - ref_log_probs)\<close>
  for the reward and \<open>+ kl_coeff * (log_probs - ref_log_probs)\<close> for the cost, with the
  row's scalar reward (cost) added once, at the last valid index \<open>e\<close> of the row's mask;
  the function returns both streams clamped entry by entry to
  \<open>[- clip_range_score, clip_range_score]\<close>; and the unclamped reward stream summed over
  the valid positions is the scalar reward minus \<open>kl_coeff\<close> times the sum of the KL
  estimates over the valid positions.
\<close>

theorem kl_shaping_streams:
  assumes lr: "length reward = length sequence_mask"
    and lc: "length cost = length sequence_mask"
    and lp: "length log_probs = length sequence_mask"
    and lq: "length ref_log_probs = length sequence_mask"
    and rows: "\<forall>i < length sequence_mask.
          length (ref_log_probs ! i) = length (log_probs ! i) \<and>
          length (sequence_mask ! i) \<le> length (log_probs ! i) \<and>
          (\<exists>t < length (sequence_mask ! i). sequence_mask ! i ! t)"
  shows "\<exists>pre_rewards pre_costs rewards costs.
     kl_scatter kl_coeff reward cost log_probs ref_log_probs sequence_mask
       = Inr (pre_rewards, pre_costs) \<and>
     add_kl_divergence_regularization_with_cost kl_coeff clip_range_score
         reward cost log_probs ref_log_probs sequence_mask = Inr (rewards, costs) \<and>
     length rewards = length sequence_mask \<and> length costs = length sequence_mask \<and>
     (\<forall>i < length sequence_mask.
        \<exists>e. e < length (sequence_mask ! i) \<and> sequence_mask ! i ! e \<and>
            (\<forall>u. e < u \<and> u < length (sequence_mask ! i) \<longrightarrow> \<not> sequence_mask ! i ! u) \<and>
            length (rewards ! i) = length (log_probs ! i) \<and>
            length (costs ! i) = length (log_probs ! i) \<and>
            (\<forall>t < length (log_probs ! i).
               pre_rewards ! i ! t =
                 - kl_coeff * (log_probs ! i ! t - ref_log_probs ! i ! t)
                   + (if t = e then reward ! i else 0) \<and>
               pre_costs ! i ! t =
                 kl_coeff * (log_probs ! i ! t - ref_log_probs ! i ! t)
                   + (if t = e then cost ! i else 0) \<and>
               rewards ! i ! t =
                 min (max (pre_rewards ! i ! t) (- clip_range_score)) clip_range_score \<and>
               costs ! i ! t =
                 min (max (pre_costs ! i ! t) (- clip_range_score)) clip_range_score) \<and>
            (\<Sum>t | t < length (sequence_mask ! i) \<and> sequence_mask ! i ! t. pre_rewards ! i ! t)
              = reward ! i
                - kl_coeff * (\<Sum>t | t < length (sequence_mask ! i) \<and> sequence_mask ! i ! t.
                                 log_probs ! i ! t - ref_log_probs ! i ! t))"
proof -
  let ?B = "length sequence_mask"
  let ?e = "\<lambda>i. last (nonzero (sequence_mask ! i))"
  let ?d = "\<lambda>i t. log_probs ! i ! t - ref_log_probs ! i ! t"
  let ?R = "\<lambda>i. map (\<lambda>t. - kl_coeff * ?d i t + (if t = ?e i then reward ! i else 0))
                    [0..<length (log_probs ! i)]"
  let ?C = "\<lambda>i. map (\<lambda>t. kl_coeff * ?d i t + (if t = ?e i then cost ! i else 0))
                    [0..<length (log_probs ! i)]"
  let ?cl = "\<lambda>x. clamp x (- clip_range_score) clip_range_score"
  let ?PR = "map ?R [0..<?B]" and ?PC = "map ?C [0..<?B]"
  have ne: "nonzero (sequence_mask ! i) \<noteq> []" if "i < ?B" for i
    using rows that nonzero_nonempty [of _ "sequence_mask ! i"] by blast
  have ks: "kl_scatter kl_coeff reward cost log_probs ref_log_probs sequence_mask = Inr (?PR, ?PC)"
    by (rule kl_scatter_result [OF lr lc lp lq]) (use rows ne in simp)
  have ak: "add_kl_divergence_regularization_with_cost kl_coeff clip_range_score
         reward cost log_probs ref_log_probs sequence_mask
           = Inr (map (map ?cl) ?PR, map (map ?cl) ?PC)"
    by (simp only: add_kl_divergence_regularization_with_cost_def ks sum.case prod.case)
  have row: "?e i < length (sequence_mask ! i) \<and> sequence_mask ! i ! ?e i \<and>
            (\<forall>u. ?e i < u \<and> u < length (sequence_mask ! i) \<longrightarrow> \<not> sequence_mask ! i ! u) \<and>
            length (map (map ?cl) ?PR ! i) = length (log_probs ! i) \<and>
            length (map (map ?cl) ?PC ! i) = length (log_probs ! i) \<and>
            (\<forall>t < length (log_probs ! i).
               ?PR ! i ! t = - kl_coeff * ?d i t + (if t = ?e i then reward ! i else 0) \<and>
               ?PC ! i ! t = kl_coeff * ?d i t + (if t = ?e i then cost ! i else 0) \<and>
               map (map ?cl) ?PR ! i ! t = min (max (?PR ! i ! t) (- clip_range_score)) clip_range_score \<and>
               map (map ?cl) ?PC ! i ! t = min (max (?PC ! i ! t) (- clip_range_score)) clip_range_score) \<and>
            (\<Sum>t | t < length (sequence_mask ! i) \<and> sequence_mask ! i ! t. ?PR ! i ! t)
              = reward ! i
                - kl_coeff * (\<Sum>t | t < length (sequence_mask ! i) \<and> sequence_mask ! i ! t. ?d i t)"
    if i: "i < ?B" for i
  proof -
    note ln = last_nonzero [OF ne [OF i]]
    have le: "length (sequence_mask ! i) \<le> length (log_probs ! i)" using rows i by simp
    have "(\<Sum>t | t < length (sequence_mask ! i) \<and> sequence_mask ! i ! t. ?PR ! i ! t)
        = (\<Sum>t | t < length (sequence_mask ! i) \<and> sequence_mask ! i ! t.
             - kl_coeff * ?d i t + (if t = ?e i then reward ! i else 0))"
      by (rule sum.cong) (use i le in auto)
    also have "\<dots> = reward ! i
                - kl_coeff * (\<Sum>t | t < length (sequence_mask ! i) \<and> sequence_mask ! i ! t. ?d i t)"
      by (rule sum_valid_scatter) (use ln in simp_all)
    finally have sm: "(\<Sum>t | t < length (sequence_mask ! i) \<and> sequence_mask ! i ! t. ?PR ! i ! t)
        = reward ! i
                - kl_coeff * (\<Sum>t | t < length (sequence_mask ! i) \<and> sequence_mask ! i ! t. ?d i t)" .
    have pw: "\<forall>t < length (log_probs ! i).
               ?PR ! i ! t = - kl_coeff * ?d i t + (if t = ?e i then reward ! i else 0) \<and>
               ?PC ! i ! t = kl_coeff * ?d i t + (if t = ?e i then cost ! i else 0) \<and>
               map (map ?cl) ?PR ! i ! t = min (max (?PR ! i ! t) (- clip_range_score)) clip_range_score \<and>
               map (map ?cl) ?PC ! i ! t = min (max (?PC ! i ! t) (- clip_range_score)) clip_range_score"
      using i by (simp add: clamp_def)
    have len: "length (map (map ?cl) ?PR ! i) = length (log_probs ! i)"
         "length (map (map ?cl) ?PC ! i) = length (log_probs ! i)"
      using i by simp_all
    from ln sm pw len show ?thesis by blast
  qed
  show ?thesis
    apply (rule exI [of _ ?PR], rule exI [of _ ?PC])
    apply (rule exI [of _ "map (map ?cl) ?PR"], rule exI [of _ "map (map ?cl) ?PC"])
    apply (intro conjI ks ak)
      apply simp
     apply simp
    apply (intro allI impI)
    subgoal for i by (rule exI [of _ "?e i"]) (rule row)
    done
qed

text \<open>The theorem at a batch of two rows, the first with a masked last position.\<close>

theorem kl_shaping_streams_witness:
  "\<exists>pre_rewards pre_costs rewards costs.
     kl_scatter (1/10) [10, 3] [2, - 8] [[1/2, 1], [1, 1]] [[1/4, 1/2], [0, 0]]
         [[True, False], [True, True]] = Inr (pre_rewards, pre_costs) \<and>
     add_kl_divergence_regularization_with_cost (1/10) 5 [10, 3] [2, - 8]
         [[1/2, 1], [1, 1]] [[1/4, 1/2], [0, 0]] [[True, False], [True, True]]
       = Inr (rewards, costs) \<and>
     length rewards = 2 \<and> length costs = 2"
proof -
  let ?m = "[[True, False], [True, True]]"
  let ?p = "[[1/2, 1], [1, 1 :: real]]" and ?q = "[[1/4, 1/2], [0, 0 :: real]]"
  let ?r = "[10, 3 :: real]" and ?c = "[2, - 8 :: real]"
  have l: "length ?r = length ?m" "length ?c = length ?m" "length ?p = length ?m"
    "length ?q = length ?m"
    by simp_all
  have rows: "\<forall>i < length ?m.
          length (?q ! i) = length (?p ! i) \<and> length (?m ! i) \<le> length (?p ! i) \<and>
          (\<exists>t < length (?m ! i). ?m ! i ! t)"
    by (simp add: All_less_Suc Ex_less_Suc)
  from kl_shaping_streams [where kl_coeff = "1/10" and clip_range_score = 5, OF l rows]
  obtain pre_rewards pre_costs rewards costs where
    "kl_scatter (1/10) ?r ?c ?p ?q ?m = Inr (pre_rewards, pre_costs)"
    "add_kl_divergence_regularization_with_cost (1/10) 5 ?r ?c ?p ?q ?m = Inr (rewards, costs)"
    "length rewards = length ?m" "length costs = length ?m"
    by blast
  then show ?thesis by simp
qed

section \<open>Properties of the Lagrange multiplier\<close>

text \<open>
  The modelled gradient is the derivative of the clamped loss wherever the loss is
  differentiable: where the unclamped value lies strictly inside the clamp range, and
  where it lies strictly outside.
\<close>

lemma lambda_loss_deriv_inside:
  assumes "- 1000000 < - (c - th) * exp x" and "- (c - th) * exp x < 1000000"
  shows "DERIV (lambda_loss c th) x :> lambda_loss_grad c th x"
proof -
  let ?raw = "\<lambda>y. - (c - th) * exp y"
  have d: "DERIV ?raw x :> ?raw x"
    by (auto intro!: derivative_eq_intros)
  have c: "isCont ?raw x" using d by (rule DERIV_isCont)
  have t: "(?raw \<longlongrightarrow> ?raw x) (nhds x)"
    by (rule iffD1 [OF tendsto_at_iff_tendsto_nhds [of ?raw x] c [unfolded isCont_def]])
  have e1: "eventually (\<lambda>y. - 1000000 < ?raw y) (nhds x)"
    using t assms(1) by (rule order_tendstoD)
  have e2: "eventually (\<lambda>y. ?raw y < 1000000) (nhds x)"
    using t assms(2) by (rule order_tendstoD)
  have ev: "eventually (\<lambda>y. lambda_loss c th y = ?raw y) (nhds x)"
    using e1 e2 by eventually_elim (simp add: lambda_loss_def clamp_def)
  have g: "lambda_loss_grad c th x = ?raw x"
    using assms by (simp add: lambda_loss_grad_def Let_def)
  show ?thesis
    unfolding g using d DERIV_cong_ev [OF refl ev refl] by simp
qed

lemma lambda_loss_deriv_outside:
  assumes "- (c - th) * exp x < - 1000000 \<or> 1000000 < - (c - th) * exp x"
  shows "DERIV (lambda_loss c th) x :> lambda_loss_grad c th x"
proof -
  let ?raw = "\<lambda>y. - (c - th) * exp y"
  have d: "DERIV ?raw x :> ?raw x"
    by (auto intro!: derivative_eq_intros)
  have c: "isCont ?raw x" using d by (rule DERIV_isCont)
  have t: "(?raw \<longlongrightarrow> ?raw x) (nhds x)"
    by (rule iffD1 [OF tendsto_at_iff_tendsto_nhds [of ?raw x] c [unfolded isCont_def]])
  have g: "lambda_loss_grad c th x = 0"
    using assms by (auto simp: lambda_loss_grad_def Let_def)
  from assms show ?thesis
  proof
    assume a: "?raw x < - 1000000"
    have "eventually (\<lambda>y. ?raw y < - 1000000) (nhds x)"
      using t a by (rule order_tendstoD)
    then have ev: "eventually (\<lambda>y. lambda_loss c th y = - 1000000) (nhds x)"
      by eventually_elim (simp add: lambda_loss_def clamp_def)
    show ?thesis
      unfolding g using DERIV_cong_ev [OF refl ev refl, of 0] by simp
  next
    assume a: "1000000 < ?raw x"
    have "eventually (\<lambda>y. 1000000 < ?raw y) (nhds x)"
      using t a by (rule order_tendstoD)
    then have ev: "eventually (\<lambda>y. lambda_loss c th y = 1000000) (nhds x)"
      by eventually_elim (simp add: lambda_loss_def clamp_def)
    show ?thesis
      unfolding g using DERIV_cong_ev [OF refl ev refl, of 0] by simp
  qed
qed



text \<open>
  On the coordinating process, once the delay has passed and with no upper bound
  configured, the controller step is the optimizer step; with a bound it is cut at the
  bound; elsewhere \<open>log_lambda\<close> is left as it is.
\<close>

lemma lagrange_controller_step_unbounded:
  "delay \<le> global_step \<Longrightarrow>
   lagrange_controller_step True global_step delay lr None c th x = lagrange_update lr c th x"
  by (simp add: lagrange_controller_step_def)

lemma lagrange_controller_step_bounded:
  "delay \<le> global_step \<Longrightarrow>
   lagrange_controller_step True global_step delay lr (Some m) c th x
     = min (lagrange_update lr c th x) m"
  by (simp add: lagrange_controller_step_def)

lemma lagrange_controller_step_skipped:
  "\<not> is_main \<or> global_step < delay \<Longrightarrow>
   lagrange_controller_step is_main global_step delay lr bound c th x = x"
  by (auto simp: lagrange_controller_step_def)




section \<open>Properties of the blended advantage\<close>

lemma ln2_le_093: "ln (2::real) \<le> 93/100"
proof -
  have "(1 + 465/1000 :: real) \<le> exp (465/1000)" by (rule exp_ge_add_one_self)
  then have "(1465/1000 :: real) * (1465/1000) \<le> exp (465/1000) * exp (465/1000)"
    by (intro mult_mono) simp_all
  also have "\<dots> = exp (93/100 :: real)" by (simp add: exp_add [symmetric])
  finally have "(2::real) \<le> exp (93/100)" by simp
  then have "ln (2::real) \<le> ln (exp (93/100))" by (subst ln_le_cancel_iff) simp_all
  then show ?thesis by simp
qed

lemma underflow_1000: "(- 1000 :: real) \<le> exp_underflow"
  using ln2_le_093 by (simp add: exp_underflow_def)

lemma multiplier_nonneg: "0 \<le> multiplier x"
  by (simp add: multiplier_def)

lemma multiplier_pos_iff: "0 < multiplier x \<longleftrightarrow> exp_underflow < x"
  by (simp add: multiplier_def)

lemma actor_advantages_result:
  assumes shape: "map length A_reward = map length A_cost"
  shows "actor_advantages log_lambda A_reward A_cost
           = Inr (map (\<lambda>i. map (\<lambda>t. (A_reward ! i ! t
                                       - multiplier log_lambda * A_cost ! i ! t)
                                    / (1 + multiplier log_lambda))
                          [0..<length (A_reward ! i)])
                    [0..<length A_reward])"
proof -
  have len: "length A_reward = length A_cost"
    using shape by (rule map_eq_imp_length_eq)
  have row: "length (A_reward ! i) = length (A_cost ! i)"
    if "i < length A_reward" for i
  proof -
    have "map length A_reward ! i = map length A_cost ! i"
      by (simp only: shape)
    then show ?thesis using that len by simp
  qed
  have "map2 (map2 (blend (multiplier log_lambda))) A_reward A_cost
      = map (\<lambda>i. map (\<lambda>t. (A_reward ! i ! t
                                       - multiplier log_lambda * A_cost ! i ! t)
                                    / (1 + multiplier log_lambda))
                          [0..<length (A_reward ! i)])
                    [0..<length A_reward]"
  proof (rule nth_equalityI)
    show "length (map2 (map2 (blend (multiplier log_lambda))) A_reward A_cost)
        = length (map (\<lambda>i. map (\<lambda>t. (A_reward ! i ! t
                                       - multiplier log_lambda * A_cost ! i ! t)
                                    / (1 + multiplier log_lambda))
                          [0..<length (A_reward ! i)])
                    [0..<length A_reward])"
      using len by simp
  next
    fix i
    assume "i < length (map2 (map2 (blend (multiplier log_lambda)))
                          A_reward A_cost)"
    then have i: "i < length A_reward" using len by simp
    have "map2 (blend (multiplier log_lambda)) (A_reward ! i) (A_cost ! i)
        = map (\<lambda>t. (A_reward ! i ! t
                                       - multiplier log_lambda * A_cost ! i ! t)
                                    / (1 + multiplier log_lambda))
                          [0..<length (A_reward ! i)]"
      by (rule nth_equalityI) (simp_all add: row [OF i] blend_def)
    then show "map2 (map2 (blend (multiplier log_lambda))) A_reward A_cost ! i
        = map (\<lambda>i. map (\<lambda>t. (A_reward ! i ! t
                                       - multiplier log_lambda * A_cost ! i ! t)
                                    / (1 + multiplier log_lambda))
                          [0..<length (A_reward ! i)])
                    [0..<length A_reward] ! i"
      using i len by simp
  qed
  then show ?thesis using shape by (simp add: actor_advantages_def)
qed

text \<open>
  C4, as the code has it. The policy update blends the advantages entry by entry as
  \<open>(A_reward - \<lambda> A_cost) / (1 + \<lambda>)\<close>, where \<open>\<lambda>\<close> is the double \<open>exp log_lambda\<close>. \<open>\<lambda>\<close> is
  never negative, it is strictly positive exactly for \<open>log_lambda\<close> above the underflow
  threshold \<open>- 1075 * ln 2\<close> of the exponential (where it is \<open>exp log_lambda\<close>) and zero at or
  below it, so \<open>1 + \<lambda>\<close> is positive for every \<open>log_lambda\<close>; and where \<open>\<lambda> = 0\<close> the blended
  advantage is the reward advantage.
\<close>

theorem blended_advantage:
  assumes shape: "map length A_reward = map length A_cost"
  shows "0 \<le> multiplier log_lambda \<and>
    (0 < multiplier log_lambda) = (- 1075 * ln 2 < log_lambda) \<and>
    (- 1075 * ln 2 < log_lambda \<longrightarrow> multiplier log_lambda = exp log_lambda) \<and>
    0 < 1 + multiplier log_lambda \<and>
    blend 0 ra ca = ra \<and>
    (\<exists>advantages.
       actor_advantages log_lambda A_reward A_cost = Inr advantages \<and>
       length advantages = length A_reward \<and>
       (\<forall>i < length A_reward.
          length (advantages ! i) = length (A_reward ! i) \<and>
          (\<forall>t < length (A_reward ! i).
             advantages ! i ! t =
               (A_reward ! i ! t - multiplier log_lambda * A_cost ! i ! t)
                 / (1 + multiplier log_lambda) \<and>
             (multiplier log_lambda = 0 \<longrightarrow>
                advantages ! i ! t = A_reward ! i ! t))))"
proof -
  let ?A = "map (\<lambda>i. map (\<lambda>t. (A_reward ! i ! t
                                       - multiplier log_lambda * A_cost ! i ! t)
                                    / (1 + multiplier log_lambda))
                          [0..<length (A_reward ! i)])
                    [0..<length A_reward]"
  have n: "0 \<le> multiplier log_lambda" by (simp add: multiplier_def)
  have p: "(0 < multiplier log_lambda) = (- 1075 * ln 2 < log_lambda)"
    by (auto simp: multiplier_def exp_underflow_def)
  have e: "- 1075 * ln 2 < log_lambda \<longrightarrow> multiplier log_lambda = exp log_lambda"
    by (simp add: multiplier_def exp_underflow_def)
  have d: "0 < 1 + multiplier log_lambda" using n by simp
  have b: "blend 0 ra ca = ra" by (simp add: blend_def)
  have r: "actor_advantages log_lambda A_reward A_cost = Inr ?A"
    using shape by (rule actor_advantages_result)
  have pt: "length (?A ! i) = length (A_reward ! i) \<and>
          (\<forall>t < length (A_reward ! i).
             ?A ! i ! t =
               (A_reward ! i ! t - multiplier log_lambda * A_cost ! i ! t)
                 / (1 + multiplier log_lambda) \<and>
             (multiplier log_lambda = 0 \<longrightarrow> ?A ! i ! t = A_reward ! i ! t))"
    if "i < length A_reward" for i
    using that by simp
  have l: "length ?A = length A_reward" by simp
  from r l pt have
    "\<exists>advantages.
       actor_advantages log_lambda A_reward A_cost = Inr advantages \<and>
       length advantages = length A_reward \<and>
       (\<forall>i < length A_reward.
          length (advantages ! i) = length (A_reward ! i) \<and>
          (\<forall>t < length (A_reward ! i).
             advantages ! i ! t =
               (A_reward ! i ! t - multiplier log_lambda * A_cost ! i ! t)
                 / (1 + multiplier log_lambda) \<and>
             (multiplier log_lambda = 0 \<longrightarrow>
                advantages ! i ! t = A_reward ! i ! t)))"
    by blast
  with n p e d b show ?thesis by blast
qed

text \<open>
  The theorem at a batch of two rows of different lengths, for \<open>log_lambda = 0\<close> and for
  \<open>log_lambda = - 1000\<close>, where the multiplier is zero.
\<close>

theorem blended_advantage_witness:
  "0 \<le> multiplier 0 \<and> 0 < 1 + multiplier 0 \<and>
   (\<exists>advantages.
       actor_advantages 0 [[1, 2], [3]] [[4, 5], [6]] = Inr advantages \<and>
       length advantages = 2 \<and> advantages ! 0 ! 1 = (2 - exp 0 * 5) / (1 + exp 0)) \<and>
   (\<exists>advantages.
       actor_advantages (- 1000) [[1, 2], [3]] [[4, 5], [6]] = Inr advantages \<and>
       length advantages = 2 \<and> advantages ! 0 ! 1 = 2)"
proof -
  let ?r = "[[1, 2], [3 :: real]]" and ?c = "[[4, 5], [6 :: real]]"
  have shape: "map length ?r = map length ?c" by simp
  have above: "- 1075 * ln 2 < (0::real)" by simp
  have i: "0 < length ?r" and t: "1 < length (?r ! 0)" by simp_all
  from blended_advantage [OF shape, of 0]
  obtain advantages where
    a: "0 \<le> multiplier 0" "0 < 1 + multiplier 0"
      "- 1075 * ln 2 < (0::real) \<longrightarrow> multiplier 0 = exp 0"
      "actor_advantages 0 ?r ?c = Inr advantages"
      "length advantages = length ?r"
    and pa: "\<forall>i < length ?r. length (advantages ! i) = length (?r ! i) \<and>
          (\<forall>t < length (?r ! i).
             advantages ! i ! t = (?r ! i ! t - multiplier 0 * ?c ! i ! t) / (1 + multiplier 0) \<and>
             (multiplier 0 = 0 \<longrightarrow> advantages ! i ! t = ?r ! i ! t))"
    by blast
  from a(3) above have m0: "multiplier 0 = exp 0" by blast
  from pa i t have "advantages ! 0 ! 1 = (?r ! 0 ! 1 - multiplier 0 * ?c ! 0 ! 1) / (1 + multiplier 0)"
    by blast
  then have v: "advantages ! 0 ! 1 = (2 - exp 0 * 5) / (1 + exp 0)"
    unfolding m0 by simp
  have z: "multiplier (- 1000) = 0"
    using underflow_1000 by (simp add: multiplier_def)
  from blended_advantage [OF shape, of "- 1000"]
  obtain advantages' where
    b: "actor_advantages (- 1000) ?r ?c = Inr advantages'"
      "length advantages' = length ?r"
    and pb: "\<forall>i < length ?r. length (advantages' ! i) = length (?r ! i) \<and>
          (\<forall>t < length (?r ! i).
             advantages' ! i ! t
               = (?r ! i ! t - multiplier (- 1000) * ?c ! i ! t) / (1 + multiplier (- 1000)) \<and>
             (multiplier (- 1000) = 0 \<longrightarrow> advantages' ! i ! t = ?r ! i ! t))"
    by blast
  from pb i t z have "advantages' ! 0 ! 1 = ?r ! 0 ! 1" by blast
  then have w: "advantages' ! 0 ! 1 = 2" by simp
  have l: "length ?r = 2" by simp
  from a(1,2,4,5) v b w show ?thesis unfolding l by blast
qed

text \<open>
  The claim as stated fails: one controller step with an unclamped loss inside the clamp
  range takes \<open>log_lambda\<close> from 0 to \<open>-1000\<close>, a finite value at which the multiplier is
  not strictly positive.
\<close>

theorem multiplier_underflows_to_zero:
  "lagrange_update (1/10) (- 10000) 0 0 = - 1000 \<and> \<not> 0 < multiplier (- 1000)"
proof
  show "lagrange_update (1/10) (- 10000) 0 0 = - 1000"
    by (simp add: lagrange_update_def sgd_step_def lambda_loss_grad_def Let_def)
  show "\<not> 0 < multiplier (- 1000)"
    using underflow_1000 by (simp add: multiplier_def)
qed

section \<open>Properties of the sequence mask of an update step\<close>

lemma nonzero_all_true: "nonzero (replicate n True) = [0..<n]"
  by (simp add: nonzero_def filter_id_conv)


lemma rl_step_sequence_mask_row:
  assumes rect: "\<forall>row \<in> set response_mask. length row = size_last response_mask"
    and i: "i < length response_mask"
  shows "rl_step_sequence_mask response_mask old_reward_values old_cost_values ! i
           = replicate (rl_step_new_size response_mask old_reward_values old_cost_values) True"
proof -
  let ?n = "rl_step_new_size response_mask old_reward_values old_cost_values"
  have s: "size_last (ones_like response_mask) = size_last response_mask"
    by (cases response_mask) (simp_all add: size_last_def ones_like_def)
  have "length (response_mask ! i) = size_last response_mask" using rect i by simp
  then have le: "?n \<le> length (response_mask ! i)" by (simp add: rl_step_new_size_def s)
  have "ones_like response_mask ! i = replicate (length (response_mask ! i)) True"
    using i by (simp add: ones_like_def map_replicate_const)
  then show ?thesis
    using i le by (simp add: rl_step_sequence_mask_def Let_def ones_like_def min_absorb2 min_absorb1)
qed

text \<open>
  That mask is the one the update step hands on: with it, the targets are the KL shaping
  followed by the two advantage computations on the all-true mask.
\<close>

lemma rl_step_targets_mask:
  assumes rect: "\<forall>row \<in> set response_mask. length row = size_last response_mask"
  shows "rl_step_sequence_mask response_mask old_reward_values old_cost_values
           = replicate (length response_mask)
               (replicate (rl_step_new_size response_mask old_reward_values old_cost_values) True)"
proof (rule nth_equalityI)
  show "length (rl_step_sequence_mask response_mask old_reward_values old_cost_values)
      = length (replicate (length response_mask)
               (replicate (rl_step_new_size response_mask old_reward_values old_cost_values) True))"
    by (simp add: rl_step_sequence_mask_def Let_def ones_like_def)
next
  fix i assume "i < length (rl_step_sequence_mask response_mask old_reward_values old_cost_values)"
  then have i: "i < length response_mask"
    by (simp add: rl_step_sequence_mask_def Let_def ones_like_def)
  show "rl_step_sequence_mask response_mask old_reward_values old_cost_values ! i
      = replicate (length response_mask)
               (replicate (rl_step_new_size response_mask old_reward_values old_cost_values) True) ! i"
    using rl_step_sequence_mask_row [OF rect i] i by simp
qed

text \<open>
  The whole of that part of the update step on the all-true mask: the KL shaping puts
  the scalar reward and cost at the last column, and the advantage computations run on
  unmasked values and shaped rewards.
\<close>

lemma masked_all_true: "length xs = n \<Longrightarrow> masked xs (replicate n True) = xs"
  by (rule nth_equalityI) (simp_all add: masked_def)

lemma map_upt_cong: "(\<And>i. i < n \<Longrightarrow> f i = g i) \<Longrightarrow> map f [0..<n] = map g [0..<n]"
  by (rule map_cong [OF refl]) simp

lemma add_kl_all_true:
  assumes pos: "0 < n"
    and lr: "length reward = B" and lc: "length cost = B"
    and lp: "length log_probs = B" and lq: "length ref_log_probs = B"
    and rows: "\<And>i. i < B \<Longrightarrow> length (log_probs ! i) = n \<and> length (ref_log_probs ! i) = n"
  shows "add_kl_divergence_regularization_with_cost kl_coeff clip_range_score reward cost
           log_probs ref_log_probs (replicate B (replicate n True))
         = Inr (map (\<lambda>i. map (\<lambda>t. clamp (- kl_coeff * (log_probs ! i ! t - ref_log_probs ! i ! t)
                                           + (if t = n - 1 then reward ! i else 0))
                                      (- clip_range_score) clip_range_score) [0..<n]) [0..<B],
                map (\<lambda>i. map (\<lambda>t. clamp (kl_coeff * (log_probs ! i ! t - ref_log_probs ! i ! t)
                                           + (if t = n - 1 then cost ! i else 0))
                                      (- clip_range_score) clip_range_score) [0..<n]) [0..<B])"
proof -
  let ?M = "replicate B (replicate n True)"
  have lM: "length ?M = B" by simp
  have Mi: "?M ! i = replicate n True" if "i < B" for i using that by simp
  have e: "last (nonzero (?M ! i)) = n - 1" if "i < B" for i
    using pos by (simp add: Mi [OF that] nonzero_all_true last_upt)
  have ks: "kl_scatter kl_coeff reward cost log_probs ref_log_probs ?M =
    Inr (map (\<lambda>i. map (\<lambda>t. - kl_coeff * (log_probs ! i ! t - ref_log_probs ! i ! t)
                             + (if t = last (nonzero (?M ! i)) then reward ! i else 0))
                    [0..<length (log_probs ! i)]) [0..<length ?M],
         map (\<lambda>i. map (\<lambda>t. kl_coeff * (log_probs ! i ! t - ref_log_probs ! i ! t)
                             + (if t = last (nonzero (?M ! i)) then cost ! i else 0))
                    [0..<length (log_probs ! i)]) [0..<length ?M])"
  proof (rule kl_scatter_result)
    fix i assume "i < length ?M"
    then have i: "i < B" by simp
    show "length (ref_log_probs ! i) = length (log_probs ! i) \<and>
          length (?M ! i) \<le> length (log_probs ! i) \<and> nonzero (?M ! i) \<noteq> []"
      using rows [OF i] pos by (simp add: Mi [OF i] nonzero_all_true)
  qed (simp_all add: lr lc lp lq)
  have r: "map (\<lambda>i. map (\<lambda>t. - kl_coeff * (log_probs ! i ! t - ref_log_probs ! i ! t)
                             + (if t = last (nonzero (?M ! i)) then reward ! i else 0))
                    [0..<length (log_probs ! i)]) [0..<length ?M]
         = map (\<lambda>i. map (\<lambda>t. - kl_coeff * (log_probs ! i ! t - ref_log_probs ! i ! t)
                             + (if t = n - 1 then reward ! i else 0)) [0..<n]) [0..<B]"
    unfolding lM by (rule map_upt_cong) (simp only: e rows)
  have c: "map (\<lambda>i. map (\<lambda>t. kl_coeff * (log_probs ! i ! t - ref_log_probs ! i ! t)
                             + (if t = last (nonzero (?M ! i)) then cost ! i else 0))
                    [0..<length (log_probs ! i)]) [0..<length ?M]
         = map (\<lambda>i. map (\<lambda>t. kl_coeff * (log_probs ! i ! t - ref_log_probs ! i ! t)
                             + (if t = n - 1 then cost ! i else 0)) [0..<n]) [0..<B]"
    unfolding lM by (rule map_upt_cong) (simp only: e rows)
  show ?thesis
    by (simp only: add_kl_divergence_regularization_with_cost_def ks r c sum.case prod.case
        map_map comp_def)
qed

lemma gae_all_true:
  assumes pos: "0 < n"
    and lv: "length values = B" and lr: "length rewards = B"
    and rows: "\<And>i. i < B \<Longrightarrow> length (values ! i) = n \<and> length (rewards ! i) = n"
  shows "get_advantages_and_returns g l values rewards (replicate B (replicate n True)) 0
         = Inr (map (\<lambda>i. map (gae_recurrence g l (values ! i) (rewards ! i)) [0..<n]) [0..<B],
                map (\<lambda>i. map (\<lambda>t. gae_recurrence g l (values ! i) (rewards ! i) t
                                     + values ! i ! t) [0..<n]) [0..<B])"
proof -
  let ?M = "replicate B (replicate n True)"
  have lM: "length ?M = B" by simp
  have Mi: "?M ! i = replicate n True" if "i < B" for i using that by simp
  have res: "get_advantages_and_returns g l values rewards ?M 0 =
           Inr (map (\<lambda>i. map (gae_recurrence g l (masked (values ! i) (?M ! i)) (masked (rewards ! i) (?M ! i)))
                          [0..<length (?M ! i)]) [0..<length ?M],
                map (\<lambda>i. map (\<lambda>t. gae_recurrence g l (masked (values ! i) (?M ! i)) (masked (rewards ! i) (?M ! i)) t
                                   + masked (values ! i) (?M ! i) ! t)
                          [0..<length (?M ! i)]) [0..<length ?M])"
  proof (rule gae_batch_result)
    fix i assume "i < length ?M"
    then have i: "i < B" by simp
    show "length (values ! i) = length (?M ! i) \<and> length (rewards ! i) = length (?M ! i)
        \<and> 0 < length (?M ! i)"
      using rows [OF i] pos by (simp add: Mi [OF i])
  qed (simp_all add: lv lr)
  have mv: "masked (values ! i) (?M ! i) = values ! i"
    and mr: "masked (rewards ! i) (?M ! i) = rewards ! i"
    and ln: "length (?M ! i) = n" if "i < B" for i
    using rows [OF that] by (simp_all add: Mi [OF that] masked_all_true)
  have a: "map (\<lambda>i. map (gae_recurrence g l (masked (values ! i) (?M ! i)) (masked (rewards ! i) (?M ! i)))
                          [0..<length (?M ! i)]) [0..<length ?M]
        = map (\<lambda>i. map (gae_recurrence g l (values ! i) (rewards ! i)) [0..<n]) [0..<B]"
    unfolding lM by (rule map_upt_cong) (simp only: mv mr ln)
  have b: "map (\<lambda>i. map (\<lambda>t. gae_recurrence g l (masked (values ! i) (?M ! i)) (masked (rewards ! i) (?M ! i)) t
                                   + masked (values ! i) (?M ! i) ! t)
                          [0..<length (?M ! i)]) [0..<length ?M]
        = map (\<lambda>i. map (\<lambda>t. gae_recurrence g l (values ! i) (rewards ! i) t
                                     + values ! i ! t) [0..<n]) [0..<B]"
    unfolding lM by (rule map_upt_cong) (simp only: mv mr ln)
  show ?thesis by (simp only: res a b)
qed

lemma rl_step_targets_result:
  fixes response_mask :: "bool list list"
  defines "B \<equiv> length response_mask"
  assumes n: "n = rl_step_new_size response_mask old_reward_values old_cost_values"
    and rect: "\<forall>row \<in> set response_mask. length row = size_last response_mask"
    and pos: "0 < n"
    and lr: "length reward = B" and lc: "length cost = B"
    and lp: "length old_log_probs = B" and lq: "length ref_log_probs = B"
    and lv: "length old_reward_values = B" and lw: "length old_cost_values = B"
    and rows_all: "\<forall>i < B.
        length (old_log_probs ! i) = n \<and> length (ref_log_probs ! i) = n \<and>
        n \<le> length (old_reward_values ! i) \<and> n \<le> length (old_cost_values ! i)"
    and OR: "rewards = map (\<lambda>i. map (\<lambda>t.
                clamp (- kl_coeff * (old_log_probs ! i ! t - ref_log_probs ! i ! t)
                         + (if t = n - 1 then reward ! i else 0))
                      (- clip_range_score) clip_range_score) [0..<n]) [0..<B]"
    and OC: "costs = map (\<lambda>i. map (\<lambda>t.
                clamp (kl_coeff * (old_log_probs ! i ! t - ref_log_probs ! i ! t)
                         + (if t = n - 1 then cost ! i else 0))
                      (- clip_range_score) clip_range_score) [0..<n]) [0..<B]"
  shows "rl_step_targets gamma gae_lambda kl_coeff clip_range_score reward cost
           old_log_probs ref_log_probs old_reward_values old_cost_values response_mask
         = Inr \<lparr>old_rewards = rewards, old_costs = costs,
                reward_advantages =
                  map (\<lambda>i. map (gae_recurrence gamma gae_lambda
                                   (take n (old_reward_values ! i)) (rewards ! i)) [0..<n]) [0..<B],
                reward_returns =
                  map (\<lambda>i. map (\<lambda>t. gae_recurrence gamma gae_lambda
                                        (take n (old_reward_values ! i)) (rewards ! i) t
                                      + take n (old_reward_values ! i) ! t) [0..<n]) [0..<B],
                cost_advantages =
                  map (\<lambda>i. map (gae_recurrence gamma gae_lambda
                                   (take n (old_cost_values ! i)) (costs ! i)) [0..<n]) [0..<B],
                cost_returns =
                  map (\<lambda>i. map (\<lambda>t. gae_recurrence gamma gae_lambda
                                        (take n (old_cost_values ! i)) (costs ! i) t
                                      + take n (old_cost_values ! i) ! t) [0..<n]) [0..<B]\<rparr>"
proof -
  let ?M = "replicate B (replicate n True)"
  from rows_all have rows: "\<And>i. i < B \<Longrightarrow>
        length (old_log_probs ! i) = n \<and> length (ref_log_probs ! i) = n \<and>
        n \<le> length (old_reward_values ! i) \<and> n \<le> length (old_cost_values ! i)"
    by blast
  have mask: "rl_step_sequence_mask response_mask old_reward_values old_cost_values = ?M"
    unfolding B_def n by (rule rl_step_targets_mask [OF rect])
  have ak: "add_kl_divergence_regularization_with_cost kl_coeff clip_range_score reward cost
           old_log_probs ref_log_probs ?M = Inr (rewards, costs)"
    unfolding OR OC by (rule add_kl_all_true [OF pos lr lc lp lq]) (use rows in simp)
  have lOR: "length rewards = B" and lOC: "length costs = B" by (simp_all add: OR OC)
  have rOR: "length (rewards ! i) = n" and rOC: "length (costs ! i) = n" if "i < B" for i
    using that by (simp_all add: OR OC)
  have tv: "map (take n) old_reward_values ! i = take n (old_reward_values ! i)"
    and tw: "map (take n) old_cost_values ! i = take n (old_cost_values ! i)"
    and ltv: "length (take n (old_reward_values ! i)) = n"
    and ltw: "length (take n (old_cost_values ! i)) = n" if "i < B" for i
    using that rows [OF that] lv lw by simp_all
  have l1: "length (map (take n) old_reward_values) = B"
    and l2: "length (map (take n) old_cost_values) = B"
    by (simp_all add: lv lw)
  have r1: "length (map (take n) old_reward_values ! i) = n \<and> length (rewards ! i) = n"
    and r2: "length (map (take n) old_cost_values ! i) = n \<and> length (costs ! i) = n"
    if "i < B" for i
    by (simp_all only: tv [OF that] tw [OF that] ltv [OF that] ltw [OF that]
          rOR [OF that] rOC [OF that] simp_thms)
  have g1: "get_advantages_and_returns gamma gae_lambda (map (take n) old_reward_values)
              rewards ?M 0
        = Inr (map (\<lambda>i. map (gae_recurrence gamma gae_lambda
                         (map (take n) old_reward_values ! i) (rewards ! i)) [0..<n]) [0..<B],
               map (\<lambda>i. map (\<lambda>t. gae_recurrence gamma gae_lambda
                         (map (take n) old_reward_values ! i) (rewards ! i) t
                       + map (take n) old_reward_values ! i ! t) [0..<n]) [0..<B])"
    by (rule gae_all_true [OF pos l1 lOR r1])
  have g2: "get_advantages_and_returns gamma gae_lambda (map (take n) old_cost_values)
              costs ?M 0
        = Inr (map (\<lambda>i. map (gae_recurrence gamma gae_lambda
                         (map (take n) old_cost_values ! i) (costs ! i)) [0..<n]) [0..<B],
               map (\<lambda>i. map (\<lambda>t. gae_recurrence gamma gae_lambda
                         (map (take n) old_cost_values ! i) (costs ! i) t
                       + map (take n) old_cost_values ! i ! t) [0..<n]) [0..<B])"
    by (rule gae_all_true [OF pos l2 lOC r2])
  have a1: "map (\<lambda>i. map (gae_recurrence gamma gae_lambda
                         (map (take n) old_reward_values ! i) (rewards ! i)) [0..<n]) [0..<B]
        = map (\<lambda>i. map (gae_recurrence gamma gae_lambda
                         (take n (old_reward_values ! i)) (rewards ! i)) [0..<n]) [0..<B]"
    by (rule map_upt_cong) (simp only: tv)
  have b1: "map (\<lambda>i. map (\<lambda>t. gae_recurrence gamma gae_lambda
                         (map (take n) old_reward_values ! i) (rewards ! i) t
                       + map (take n) old_reward_values ! i ! t) [0..<n]) [0..<B]
        = map (\<lambda>i. map (\<lambda>t. gae_recurrence gamma gae_lambda
                         (take n (old_reward_values ! i)) (rewards ! i) t
                       + take n (old_reward_values ! i) ! t) [0..<n]) [0..<B]"
    by (rule map_upt_cong) (simp only: tv)
  have a2: "map (\<lambda>i. map (gae_recurrence gamma gae_lambda
                         (map (take n) old_cost_values ! i) (costs ! i)) [0..<n]) [0..<B]
        = map (\<lambda>i. map (gae_recurrence gamma gae_lambda
                         (take n (old_cost_values ! i)) (costs ! i)) [0..<n]) [0..<B]"
    by (rule map_upt_cong) (simp only: tw)
  have b2: "map (\<lambda>i. map (\<lambda>t. gae_recurrence gamma gae_lambda
                         (map (take n) old_cost_values ! i) (costs ! i) t
                       + map (take n) old_cost_values ! i ! t) [0..<n]) [0..<B]
        = map (\<lambda>i. map (\<lambda>t. gae_recurrence gamma gae_lambda
                         (take n (old_cost_values ! i)) (costs ! i) t
                       + take n (old_cost_values ! i) ! t) [0..<n]) [0..<B]"
    by (rule map_upt_cong) (simp only: tw)
  show ?thesis
    unfolding rl_step_targets_def Let_def mask n [symmetric]
    by (simp only: ak g1 g2 a1 b1 a2 b2 sum.case prod.case)
qed


lemma ones_like_shape: "ones_like t = map (\<lambda>k. replicate k True) (map length t)"
  by (simp add: ones_like_def map_replicate_const comp_def)

lemma rl_step_targets_shape_only:
  assumes "map length response_mask' = map length response_mask"
  shows "rl_step_targets gamma gae_lambda kl_coeff clip_range_score reward cost
           old_log_probs ref_log_probs old_reward_values old_cost_values response_mask'
         = rl_step_targets gamma gae_lambda kl_coeff clip_range_score reward cost
           old_log_probs ref_log_probs old_reward_values old_cost_values response_mask"
proof -
  have o: "ones_like response_mask' = ones_like response_mask"
    by (simp only: ones_like_shape assms)
  have n: "rl_step_new_size response_mask' old_reward_values old_cost_values
         = rl_step_new_size response_mask old_reward_values old_cost_values"
    by (simp only: rl_step_new_size_def o)
  have m: "rl_step_sequence_mask response_mask' old_reward_values old_cost_values
         = rl_step_sequence_mask response_mask old_reward_values old_cost_values"
    by (simp only: rl_step_sequence_mask_def o n)
  show ?thesis by (simp only: rl_step_targets_def n m)
qed




section \<open>Fully masked rows\<close>

lemma masked_all_false:
  assumes "length xs = length ms" and "\<forall>t < length ms. \<not> ms ! t"
  shows "masked xs ms = replicate (length ms) 0"
  by (rule nth_equalityI) (use assms in \<open>simp_all add: masked_def\<close>)

lemma estimator_zero_on_all_false_row:
  assumes v: "length values = length sequence_mask"
    and r: "length rewards = length sequence_mask"
    and rows: "\<forall>i < length sequence_mask.
        length (values ! i) = length (sequence_mask ! i) \<and>
        length (rewards ! i) = length (sequence_mask ! i) \<and>
        0 < length (sequence_mask ! i)"
    and i: "i < length sequence_mask"
    and f: "\<forall>t < length (sequence_mask ! i). \<not> sequence_mask ! i ! t"
  shows "\<exists>advantages returns.
      get_advantages_and_returns gamma gae_lambda values rewards sequence_mask 0
        = Inr (advantages, returns) \<and>
      advantages ! i = replicate (length (sequence_mask ! i)) 0 \<and>
      returns ! i = replicate (length (sequence_mask ! i)) 0"
proof -
  let ?V = "\<lambda>i. masked (values ! i) (sequence_mask ! i)"
  let ?r = "\<lambda>i. masked (rewards ! i) (sequence_mask ! i)"
  let ?n = "\<lambda>i. length (sequence_mask ! i)"
  let ?A = "map (\<lambda>i. map (gae_recurrence gamma gae_lambda (?V i) (?r i)) [0..<?n i])
              [0..<length sequence_mask]"
  let ?R = "map (\<lambda>i. map (\<lambda>t. gae_recurrence gamma gae_lambda (?V i) (?r i) t + ?V i ! t) [0..<?n i])
              [0..<length sequence_mask]"
  have res: "get_advantages_and_returns gamma gae_lambda values rewards sequence_mask 0 = Inr (?A, ?R)"
    by (rule gae_batch_result [OF v r]) (use rows in simp)
  have Vz: "?V i = replicate (?n i) 0" and rz: "?r i = replicate (?n i) 0"
    using rows i f by (simp_all add: masked_all_false)
  have z: "gae_recurrence gamma gae_lambda (?V i) (?r i) t = 0" for t
    by (rule gae_recurrence_zero) (simp_all add: Vz rz)
  have zf: "gae_recurrence gamma gae_lambda (?V i) (?r i) = (\<lambda>t. 0)"
    by (rule ext) (rule z)
  have a: "?A ! i = replicate (?n i) 0"
    using i by (simp add: zf map_replicate_const)
  have "?R ! i = map (\<lambda>t. 0) [0..<?n i]"
    using i by (simp add: z) (simp add: Vz)
  then have b: "?R ! i = replicate (?n i) 0" by (simp add: map_replicate_const)
  from res a b show ?thesis by blast
qed

lemma shape_of_row_update:
  "k < length response_mask \<Longrightarrow>
   map length (response_mask[k := replicate (length (response_mask ! k)) b])
     = map length response_mask"
  by (simp add: map_update list_update_same_conv)

text \<open>
  C7, as the code has it. The estimator \<^verbatim>\<open>get_advantages_and_returns\<close> gives all-zero
  advantages and returns, without failure, to a row of its mask argument that is all
  false and has at least one position. The training step never hands it such a row:
  \<^verbatim>\<open>rl_step\<close> reads only the shape of the response mask and builds an all-true mask
  of the same width. So a trajectory \<open>k\<close> whose response mask is all false is handled
  without failure on a batch of consistent shape, with exactly the targets it would
  get if its mask were all true: its advantages follow the unmasked recurrence over
  its shaped rewards and the first \<open>n\<close> old values, and its returns add those values.
\<close>

theorem all_false_mask_zero_advantages:
  assumes v: "length values = length sequence_mask"
    and r: "length rewards = length sequence_mask"
    and rows: "\<forall>i < length sequence_mask.
        length (values ! i) = length (sequence_mask ! i) \<and>
        length (rewards ! i) = length (sequence_mask ! i) \<and>
        0 < length (sequence_mask ! i)"
    and i: "i < length sequence_mask"
    and f: "\<forall>t < length (sequence_mask ! i). \<not> sequence_mask ! i ! t"
    and rect: "\<forall>row \<in> set response_mask. length row = size_last response_mask"
    and n: "n = rl_step_new_size response_mask old_reward_values old_cost_values"
    and pos: "0 < n"
    and k: "k < length response_mask"
    and fk: "\<forall>t < length (response_mask ! k). \<not> response_mask ! k ! t"
    and shapes: "length reward = length response_mask" "length cost = length response_mask"
      "length old_log_probs = length response_mask"
      "length ref_log_probs = length response_mask"
      "length old_reward_values = length response_mask"
      "length old_cost_values = length response_mask"
    and widths: "\<forall>j < length response_mask.
        length (old_log_probs ! j) = n \<and> length (ref_log_probs ! j) = n \<and>
        n \<le> length (old_reward_values ! j) \<and> n \<le> length (old_cost_values ! j)"
  shows "(\<exists>advantages returns.
      get_advantages_and_returns gamma gae_lambda values rewards sequence_mask 0
        = Inr (advantages, returns) \<and>
      advantages ! i = replicate (length (sequence_mask ! i)) 0 \<and>
      returns ! i = replicate (length (sequence_mask ! i)) 0) \<and>
    (\<exists>targets.
      rl_step_targets gamma gae_lambda kl_coeff clip_range_score reward cost
          old_log_probs ref_log_probs old_reward_values old_cost_values response_mask
        = Inr targets \<and>
      rl_step_targets gamma gae_lambda kl_coeff clip_range_score reward cost
          old_log_probs ref_log_probs old_reward_values old_cost_values
          (response_mask[k := replicate (length (response_mask ! k)) True])
        = Inr targets \<and>
      reward_advantages targets ! k
        = map (gae_recurrence gamma gae_lambda (take n (old_reward_values ! k))
                 (old_rewards targets ! k)) [0..<n] \<and>
      reward_returns targets ! k
        = map (\<lambda>t. gae_recurrence gamma gae_lambda (take n (old_reward_values ! k))
                      (old_rewards targets ! k) t
                    + take n (old_reward_values ! k) ! t) [0..<n] \<and>
      cost_advantages targets ! k
        = map (gae_recurrence gamma gae_lambda (take n (old_cost_values ! k))
                 (old_costs targets ! k)) [0..<n] \<and>
      cost_returns targets ! k
        = map (\<lambda>t. gae_recurrence gamma gae_lambda (take n (old_cost_values ! k))
                      (old_costs targets ! k) t
                    + take n (old_cost_values ! k) ! t) [0..<n])"
proof (rule conjI)
  show "\<exists>advantages returns.
      get_advantages_and_returns gamma gae_lambda values rewards sequence_mask 0
        = Inr (advantages, returns) \<and>
      advantages ! i = replicate (length (sequence_mask ! i)) 0 \<and>
      returns ! i = replicate (length (sequence_mask ! i)) 0"
    by (rule estimator_zero_on_all_false_row [OF v r rows i f])
next
  note res = rl_step_targets_result
        [where kl_coeff = kl_coeff and clip_range_score = clip_range_score
           and gamma = gamma and gae_lambda = gae_lambda,
         OF n rect pos shapes widths refl refl]
  have same: "rl_step_targets gamma gae_lambda kl_coeff clip_range_score reward cost
          old_log_probs ref_log_probs old_reward_values old_cost_values
          (response_mask[k := replicate (length (response_mask ! k)) True])
      = rl_step_targets gamma gae_lambda kl_coeff clip_range_score reward cost
          old_log_probs ref_log_probs old_reward_values old_cost_values response_mask"
    by (rule rl_step_targets_shape_only) (rule shape_of_row_update [OF k])
  show "\<exists>targets.
      rl_step_targets gamma gae_lambda kl_coeff clip_range_score reward cost
          old_log_probs ref_log_probs old_reward_values old_cost_values response_mask
        = Inr targets \<and>
      rl_step_targets gamma gae_lambda kl_coeff clip_range_score reward cost
          old_log_probs ref_log_probs old_reward_values old_cost_values
          (response_mask[k := replicate (length (response_mask ! k)) True])
        = Inr targets \<and>
      reward_advantages targets ! k
        = map (gae_recurrence gamma gae_lambda (take n (old_reward_values ! k))
                 (old_rewards targets ! k)) [0..<n] \<and>
      reward_returns targets ! k
        = map (\<lambda>t. gae_recurrence gamma gae_lambda (take n (old_reward_values ! k))
                      (old_rewards targets ! k) t
                    + take n (old_reward_values ! k) ! t) [0..<n] \<and>
      cost_advantages targets ! k
        = map (gae_recurrence gamma gae_lambda (take n (old_cost_values ! k))
                 (old_costs targets ! k)) [0..<n] \<and>
      cost_returns targets ! k
        = map (\<lambda>t. gae_recurrence gamma gae_lambda (take n (old_cost_values ! k))
                      (old_costs targets ! k) t
                    + take n (old_cost_values ! k) ! t) [0..<n]"
    unfolding same unfolding res using k by simp
qed


text \<open>
  The theorem at a two-row estimator input whose second row is fully masked, and at a
  two-trajectory step whose second response mask is all false.
\<close>

theorem all_false_mask_zero_advantages_witness:
  "(\<exists>advantages returns.
      get_advantages_and_returns (9/10) (95/100) [[1, 2], [3, 4]] [[5, 6], [7, 8]]
          [[True, True], [False, False]] 0 = Inr (advantages, returns) \<and>
      advantages ! 1 = [0, 0] \<and> returns ! 1 = [0, 0]) \<and>
   (\<exists>targets.
      rl_step_targets (9/10) (95/100) (1/10) 5 [1, 2] [3, 4] [[1/2, 1], [1, 1]]
          [[1/4, 1/2], [0, 0]] [[1, 2], [3, 4]] [[1, 1], [1, 1]]
          [[True, True], [False, False]] = Inr targets \<and>
      rl_step_targets (9/10) (95/100) (1/10) 5 [1, 2] [3, 4] [[1/2, 1], [1, 1]]
          [[1/4, 1/2], [0, 0]] [[1, 2], [3, 4]] [[1, 1], [1, 1]]
          [[True, True], [True, True]] = Inr targets \<and>
      reward_advantages targets ! 1
        = map (gae_recurrence (9/10) (95/100) [3, 4] (old_rewards targets ! 1)) [0..<2])"
proof -
  let ?m = "[[True, True], [False, False]]"
  let ?v = "[[1, 2], [3, 4 :: real]]" and ?r = "[[5, 6], [7, 8 :: real]]"
  let ?c = "[[1, 1], [1, 1 :: real]]"
  let ?p = "[[1/2, 1], [1, 1 :: real]]" and ?q = "[[1/4, 1/2], [0, 0 :: real]]"
  let ?rw = "[1, 2 :: real]" and ?ct = "[3, 4 :: real]"
  have l: "length ?v = length ?m" "length ?r = length ?m" by simp_all
  have rows: "\<forall>i < length ?m. length (?v ! i) = length (?m ! i) \<and>
        length (?r ! i) = length (?m ! i) \<and> 0 < length (?m ! i)"
    by (simp add: All_less_Suc)
  have i: "1 < length ?m" by simp
  have f: "\<forall>t < length (?m ! 1). \<not> ?m ! 1 ! t" by (simp add: All_less_Suc)
  have rect: "\<forall>row \<in> set ?m. length row = size_last ?m" by (simp add: size_last_def)
  have n: "2 = rl_step_new_size ?m ?v ?c"
    by (simp add: rl_step_new_size_def size_last_def ones_like_def)
  have pos: "0 < (2::nat)" by simp
  have shapes: "length ?rw = length ?m" "length ?ct = length ?m" "length ?p = length ?m"
    "length ?q = length ?m" "length ?v = length ?m" "length ?c = length ?m"
    by simp_all
  have widths: "\<forall>j < length ?m. length (?p ! j) = 2 \<and> length (?q ! j) = 2 \<and>
        2 \<le> length (?v ! j) \<and> 2 \<le> length (?c ! j)"
    by (simp add: All_less_Suc)
  note t = all_false_mask_zero_advantages
      [where gamma = "9/10" and gae_lambda = "95/100" and kl_coeff = "1/10"
         and clip_range_score = 5,
       OF l rows i f rect n pos i f shapes widths]
  have u: "?m[1 := replicate (length (?m ! 1)) True] = [[True, True], [True, True]]"
    by (simp add: numeral_2_eq_2)
  from t [THEN conjunct1] have a: "\<exists>advantages returns.
      get_advantages_and_returns (9/10) (95/100) ?v ?r ?m 0 = Inr (advantages, returns) \<and>
      advantages ! 1 = [0, 0] \<and> returns ! 1 = [0, 0]"
    by (simp add: numeral_2_eq_2)
  from t [THEN conjunct2] obtain targets where
    b1: "rl_step_targets (9/10) (95/100) (1/10) 5 ?rw ?ct ?p ?q ?v ?c ?m = Inr targets"
    and b2: "rl_step_targets (9/10) (95/100) (1/10) 5 ?rw ?ct ?p ?q ?v ?c
          (?m[1 := replicate (length (?m ! 1)) True]) = Inr targets"
    and b3: "reward_advantages targets ! 1
        = map (gae_recurrence (9/10) (95/100) (take 2 (?v ! 1)) (old_rewards targets ! 1)) [0..<2]"
    by blast
  from b2 have b2': "rl_step_targets (9/10) (95/100) (1/10) 5 ?rw ?ct ?p ?q ?v ?c
          [[True, True], [True, True]] = Inr targets"
    unfolding u .
  have tk: "take 2 (?v ! 1) = [3, 4]" by simp
  from b3 have b3': "reward_advantages targets ! 1
        = map (gae_recurrence (9/10) (95/100) [3, 4] (old_rewards targets ! 1)) [0..<2]"
    unfolding tk .
  from a b1 b2' b3' show ?thesis by blast
qed

text \<open>
  The claim as stated fails in the training step: a single trajectory of two positions
  with an all-false response mask gets the advantages \<open>[- 491/4000, - 21/20]\<close> and
  the returns \<open>[3509/4000, 19/20]\<close>, not zeros.
\<close>

theorem all_false_response_mask_not_zeroed:
  "rl_step_targets (9/10) (95/100) (1/10) 5 [1] [2] [[1/2, 1]] [[1/4, 1/2]] [[1, 2]] [[1, 1]] [[False, False]]
    = Inr \<lparr>old_rewards = [[- (1/40), 19/20]], old_costs = [[1/40, 41/20]],
           reward_advantages = [[- (491/4000), - (21/20)]], reward_returns = [[3509/4000, 19/20]],
           cost_advantages = [[3291/4000, 21/20]], cost_returns = [[7291/4000, 41/20]]\<rparr> \<and>
   [[- (491/4000), - (21/20)]] \<noteq> [[0, 0 :: real]]"
  by (simp add: rl_step_targets_def rl_step_new_size_def rl_step_sequence_mask_def size_last_def ones_like_def
      add_kl_divergence_regularization_with_cost_def kl_scatter_def end_index_row_def nonzero_def kl_scatter_row_def
      sub_rows_def scatter_add_def clamp_def get_advantages_and_returns_def get_advantages_and_returns_row_def
      mul_mask_def masked_def gae_step_def Let_def)

section \<open>Properties of the response lengths\<close>

lemma slice_from_pred: "1 \<le> n \<Longrightarrow> slice_from xs (int n - 1) = drop (n - 1) xs"
proof -
  assume n: "1 \<le> n"
  then have "\<not> int n - 1 < 0" by simp
  moreover have "nat (int n - 1) = n - 1" by simp
  ultimately show ?thesis by (simp only: slice_from_def if_False)
qed

lemma response_of_slice:
  assumes "1 \<le> length prompt" "length prompt \<le> length sequence" "length sequence \<noteq> 1"
  shows "response_of prompt sequence = Inr (drop (length prompt - 1) sequence)"
    and "drop (length prompt - 1) sequence
           = sequence ! (length prompt - 1) # drop (length prompt) sequence"
proof -
  show "response_of prompt sequence = Inr (drop (length prompt - 1) sequence)"
    using assms(3) by (simp only: response_of_def Let_def slice_from_pred [OF assms(1)] if_False)
  have "length prompt - 1 < length sequence" using assms by simp
  then have "drop (length prompt - 1) sequence
      = sequence ! (length prompt - 1) # drop (Suc (length prompt - 1)) sequence"
    by (rule Cons_nth_drop_Suc [symmetric])
  moreover have "Suc (length prompt - 1) = length prompt" using assms(1) by simp
  ultimately show "drop (length prompt - 1) sequence
           = sequence ! (length prompt - 1) # drop (length prompt) sequence"
    by (simp only:)
qed

text \<open>
  C5, as the code has it. For every trajectory with a non-empty prompt, the slice used
  for the length derivation starts at index \<open>prompt length - 1\<close> of the generated
  sequence: it is the last prompt token followed by the generated suffix, and the
  response length is the length of what \<^verbatim>\<open>remove_pad_tokens\<close> leaves of that slice.
\<close>

theorem response_slice_starts_before_prompt_end:
  assumes b: "length prompt_input_ids = length sequences"
    and rows: "\<forall>idx < length sequences.
        1 \<le> length (prompt_input_ids ! idx) \<and>
        length (prompt_input_ids ! idx) \<le> length (sequences ! idx) \<and>
        length (sequences ! idx) \<noteq> 1"
  shows "actor_step_response_lens remove_pad pad_token_id prompt_input_ids sequences
           = Inr (map (\<lambda>idx. length (remove_pad
                          (drop (length (prompt_input_ids ! idx) - 1) (sequences ! idx))
                          pad_token_id))
                    [0..<length sequences]) \<and>
         (\<forall>idx < length sequences.
            response_of (prompt_input_ids ! idx) (sequences ! idx)
              = Inr (drop (length (prompt_input_ids ! idx) - 1) (sequences ! idx)) \<and>
            drop (length (prompt_input_ids ! idx) - 1) (sequences ! idx)
              = sequences ! idx ! (length (prompt_input_ids ! idx) - 1)
                  # drop (length (prompt_input_ids ! idx)) (sequences ! idx))"
proof -
  have r: "response_of (prompt_input_ids ! idx) (sequences ! idx)
              = Inr (drop (length (prompt_input_ids ! idx) - 1) (sequences ! idx))"
    and d: "drop (length (prompt_input_ids ! idx) - 1) (sequences ! idx)
              = sequences ! idx ! (length (prompt_input_ids ! idx) - 1)
                  # drop (length (prompt_input_ids ! idx)) (sequences ! idx)"
    if "idx < length sequences" for idx
  proof -
    from rows that have h: "1 \<le> length (prompt_input_ids ! idx)"
        "length (prompt_input_ids ! idx) \<le> length (sequences ! idx)"
        "length (sequences ! idx) \<noteq> 1"
      by blast+
    show "response_of (prompt_input_ids ! idx) (sequences ! idx)
              = Inr (drop (length (prompt_input_ids ! idx) - 1) (sequences ! idx))"
      by (rule response_of_slice(1) [OF h])
    show "drop (length (prompt_input_ids ! idx) - 1) (sequences ! idx)
              = sequences ! idx ! (length (prompt_input_ids ! idx) - 1)
                  # drop (length (prompt_input_ids ! idx)) (sequences ! idx)"
      by (rule response_of_slice(2) [OF h])
  qed
  have "actor_step_response_lens remove_pad pad_token_id prompt_input_ids sequences
           = Inr (map (\<lambda>idx. length (remove_pad
                          (drop (length (prompt_input_ids ! idx) - 1) (sequences ! idx))
                          pad_token_id))
                    [0..<length sequences])"
    unfolding actor_step_response_lens_def
  proof (rule collect_map_Inr)
    fix idx assume "idx \<in> set [0..<length sequences]"
    then have i: "idx < length sequences" by simp
    then have "idx < length prompt_input_ids" using b by simp
    then show "(if idx < length prompt_input_ids
          then case response_of (prompt_input_ids ! idx) (sequences ! idx) of
                 Inl e \<Rightarrow> Inl e
               | Inr response \<Rightarrow> Inr (length (remove_pad response pad_token_id))
          else Inl IndexError)
        = Inr (length (remove_pad
                  (drop (length (prompt_input_ids ! idx) - 1) (sequences ! idx)) pad_token_id))"
      by (simp only: if_True r [OF i] sum.case)
  qed
  with r d show ?thesis by blast
qed


text \<open>The theorem at a prompt of three tokens followed by two generated tokens and two pads.\<close>

theorem response_slice_starts_before_prompt_end_witness:
  "actor_step_response_lens remove_pad_tokens 0 [[101, 7, 8]] [[101, 7, 8, 21, 22, 0, 0]]
     = Inr (map (\<lambda>idx. length (remove_pad_tokens
                    (drop (length ([[101, 7, 8 :: int]] ! idx) - 1)
                       ([[101, 7, 8, 21, 22, 0, 0]] ! idx))
                    0))
              [0..<length [[101, 7, 8, 21, 22, 0, 0 :: int]]])"
proof -
  let ?p = "[[101, 7, 8 :: int]]" and ?s = "[[101, 7, 8, 21, 22, 0, 0 :: int]]"
  have b: "length ?p = length ?s" by simp
  have rows: "\<forall>idx < length ?s. 1 \<le> length (?p ! idx) \<and>
        length (?p ! idx) \<le> length (?s ! idx) \<and> length (?s ! idx) \<noteq> 1"
    by simp
  from response_slice_starts_before_prompt_end [OF b rows, of remove_pad_tokens 0]
  show ?thesis by (rule conjunct1)
qed

text \<open>
  The claim as stated fails: for the prompt \<open>[101, 7, 8]\<close> and the sequence
  \<open>[101, 7, 8, 21, 22, 0, 0]\<close> with pad token 0 the slice is \<open>[8, 21, 22, 0, 0]\<close>, not the
  suffix \<open>[21, 22, 0, 0]\<close> after the prompt, and the derived length is 3, not 2.
\<close>

theorem response_slice_includes_last_prompt_token:
  "response_of [101, 7, 8] [101, 7, 8, 21, 22, 0, 0] = Inr [8, 21, 22, 0, 0] \<and>
   [8, 21, 22, 0, 0] \<noteq> drop (length [101, 7, 8 :: int]) [101, 7, 8, 21, 22, 0, 0 :: int] \<and>
   actor_step_response_lens remove_pad_tokens 0 [[101, 7, 8]] [[101, 7, 8, 21, 22, 0, 0]]
     = Inr [3] \<and>
   length (remove_pad_tokens (drop (length [101, 7, 8 :: int]) [101, 7, 8, 21, 22, 0, 0]) 0) = 2"
  by (simp add: response_of_def slice_from_def actor_step_response_lens_def
      remove_pad_tokens_def Let_def)

section \<open>Properties of the tokenizer checks\<close>

text \<open>
  The reward critic is checked: whenever its tokenizer is not the policy's,
  initialization raises \<^verbatim>\<open>ValueError\<close> with a message that names the reward critic
  tokenizer.
\<close>

lemma reward_critic_tokenizer_checked:
  "\<not> is_same_tokenizer (tokenizer_of (actor_model_name_or_path cfgs))
        (tokenizer_of (reward_critic_model_name_or_path cfgs)) \<Longrightarrow>
   \<exists>rest. init_models_with_cost_model is_same_tokenizer type_name vocab_size tokenizer_of cfgs
      = Inl (ValueError (''Reward critic tokenizer must be the same as actor tokenizer. ''
                         @ rest))"
  by (auto simp: init_models_with_cost_model_def initial_checking_def load_tokenizers_def
      reward_critic_message_def Let_def)

text \<open>
  Nothing else is checked: whenever the reward critic's tokenizer is the policy's,
  initialization succeeds, whatever was loaded from the cost model's path, and the
  policy tokenizer takes the place of the cost model's and the cost critic's.
\<close>

lemma cost_tokenizers_overwritten:
  "is_same_tokenizer (tokenizer_of (actor_model_name_or_path cfgs))
        (tokenizer_of (reward_critic_model_name_or_path cfgs)) \<Longrightarrow>
   \<exists>s. init_models_with_cost_model is_same_tokenizer type_name vocab_size tokenizer_of cfgs
         = Inr s \<and>
       tokenizer s = tokenizer_of (actor_model_name_or_path cfgs) \<and>
       reward_critic_tokenizer s = tokenizer s \<and>
       cost_tokenizer s = tokenizer s \<and>
       cost_critic_tokenizer s = tokenizer s"
  by (auto simp: init_models_with_cost_model_def initial_checking_def load_tokenizers_def Let_def)

text \<open>
  C8. The claim asks for an error on every mismatch between the policy's tokenizer and a
  critic's. The code misses the cost critic: with the reward critic loaded from the
  actor's path and the cost model and cost critic from another path with another
  tokenizer (tokenizers told apart by their path here), initialization raises nothing
  and returns with the cost critic's tokenizer replaced by the policy's.
\<close>

theorem cost_critic_tokenizer_mismatch_not_raised:
  "\<not> cost_critic_tokenizer (load_tokenizers (\<lambda>path. path)
          \<lparr>actor_model_name_or_path = ''llava'', reward_model_name_or_path = ''reward'',
           reward_critic_model_name_or_path = ''llava'', cost_model_name_or_path = ''cost''\<rparr>)
      = tokenizer (load_tokenizers (\<lambda>path. path)
          \<lparr>actor_model_name_or_path = ''llava'', reward_model_name_or_path = ''reward'',
           reward_critic_model_name_or_path = ''llava'', cost_model_name_or_path = ''cost''\<rparr>) \<and>
   init_models_with_cost_model (=) (\<lambda>t. t) (\<lambda>t. ''32000'') (\<lambda>path. path)
       \<lparr>actor_model_name_or_path = ''llava'', reward_model_name_or_path = ''reward'',
        reward_critic_model_name_or_path = ''llava'', cost_model_name_or_path = ''cost''\<rparr>
     = Inr \<lparr>tokenizer = ''llava'', reward_tokenizer = ''reward'',
            reward_critic_tokenizer = ''llava'', cost_tokenizer = ''llava'',
            cost_critic_tokenizer = ''llava''\<rparr>"
  by (simp add: init_models_with_cost_model_def initial_checking_def load_tokenizers_def Let_def)

section \<open>Properties of the preference collators\<close>

lemma collect_present:
  assumes "\<And>pv. pv \<in> set pvs \<Longrightarrow> pv \<noteq> None"
  shows "collect (map present pvs) = Inr (map the pvs)"
  by (rule collect_map_Inr) (use assms in \<open>auto simp: present_def split: option.splits\<close>)

lemma collate_patches_result:
  assumes k: "\<And>pv. pv \<in> set pvs \<Longrightarrow> \<exists>ps. pv = Some (Patches ps)"
  shows "collate_patches pvs =
           Inr (Some (map (length \<circ> images_of) pvs @ map (length \<circ> images_of) pvs),
                Some (concat (map images_of pvs) @ concat (map images_of pvs)))"
proof -
  have p: "collect (map present pvs) = Inr (map the pvs)"
    by (rule collect_present) (use k in auto)
  have a: "collect (map (as_patches \<circ> the) pvs) = Inr (map images_of pvs)"
  proof (rule collect_map_Inr)
    fix pv assume "pv \<in> set pvs"
    then obtain ps where "pv = Some (Patches ps)" using k by blast
    then show "(as_patches \<circ> the) pv = Inr (images_of pv)"
      by (simp add: as_patches_def images_of_def)
  qed
  show ?thesis by (simp only: collate_patches_def p a sum.case Let_def map_map)
qed

lemma collate_images_result:
  assumes k: "\<And>pv. pv \<in> set pvs \<Longrightarrow> \<exists>im. pv = Some (Image im)"
  shows "collate_images pvs =
           Inr (None, Some (concat (map images_of pvs) @ concat (map images_of pvs)))"
proof -
  let ?g = "\<lambda>pv. hd (images_of pv)"
  have p: "collect (map present pvs) = Inr (map the pvs)"
    by (rule collect_present) (use k in auto)
  have a: "collect (map (as_image \<circ> the) pvs) = Inr (map ?g pvs)"
  proof (rule collect_map_Inr)
    fix pv assume "pv \<in> set pvs"
    then obtain im where "pv = Some (Image im)" using k by blast
    then show "(as_image \<circ> the) pv = Inr (?g pv)"
      by (simp add: as_image_def images_of_def)
  qed
  have m: "map images_of pvs = map (\<lambda>pv. [?g pv]) pvs"
  proof (rule map_cong [OF refl])
    fix pv assume "pv \<in> set pvs"
    then obtain im where "pv = Some (Image im)" using k by blast
    then show "images_of pv = [?g pv]" by (simp add: images_of_def)
  qed
  have c: "concat (map images_of pvs) = map ?g pvs"
    by (simp only: m concat_map_singleton)
  show ?thesis by (simp only: collate_images_def p map_map a c sum.case)
qed

lemma same_kind_patches: "same_kind (Some (Patches a)) pv \<Longrightarrow> \<exists>ps. pv = Some (Patches ps)"
  by (cases pv) (auto simp: same_kind_def split: pixel_tensor.splits)

lemma same_kind_image: "same_kind (Some (Image a)) pv \<Longrightarrow> \<exists>im. pv = Some (Image im)"
  by (cases pv) (auto simp: same_kind_def split: pixel_tensor.splits)

lemma collate_pixels_uniform:
  assumes ne: "pvs \<noteq> []" and k: "\<forall>pv \<in> set pvs. same_kind (hd pvs) pv"
  shows "\<exists>sizes. collate_pixels pvs =
           Inr (sizes, case hd pvs of None \<Rightarrow> None
                       | Some _ \<Rightarrow> Some (concat (map images_of pvs) @ concat (map images_of pvs)))"
proof -
  from ne obtain pv0 rest where h: "pvs = pv0 # rest" by (cases pvs) auto
  have u: "collate_pixels pvs =
      (case pv0 of None \<Rightarrow> Inr (None, None)
       | Some t \<Rightarrow> (case t of Patches _ \<Rightarrow> collate_patches pvs | Image _ \<Rightarrow> collate_images pvs))"
    unfolding h by (simp add: collate_pixels_def)
  have hd: "hd pvs = pv0" by (simp add: h)
  show ?thesis
  proof (cases pv0)
    case None
    then show ?thesis by (simp add: u hd)
  next
    case (Some t)
    show ?thesis
    proof (cases t)
      case (Patches ps0)
      have "\<exists>ps. pv = Some (Patches ps)" if "pv \<in> set pvs" for pv
      proof -
        have "same_kind (hd pvs) pv" using k that by blast
        then have "same_kind (Some (Patches ps0)) pv" by (simp only: hd Some Patches)
        then show ?thesis by (rule same_kind_patches)
      qed
      from collate_patches_result [OF this]
      show ?thesis by (simp add: u hd Some Patches)
    next
      case (Image im0)
      have "\<exists>im. pv = Some (Image im)" if "pv \<in> set pvs" for pv
      proof -
        have "same_kind (hd pvs) pv" using k that by blast
        then have "same_kind (Some (Image im0)) pv" by (simp only: hd Some Image)
        then show ?thesis by (rule same_kind_image)
      qed
      from collate_images_result [OF this]
      show ?thesis by (simp add: u hd Some Image)
    qed
  qed
qed

lemma pads_right_pad_right: "pads_right pad_right"
  unfolding pads_right_def pad_right_def by auto

lemma collate_layout:
  fixes samples :: "('img, 'more) sample_scheme list"
  assumes rp: "pads_right right_padding_ids"
    and ne: "samples \<noteq> []"
    and kind: "\<forall>s \<in> set samples. same_kind (pixel_values (hd samples)) (pixel_values s)"
  shows "\<exists>b. collate right_padding_ids right_padding_mask pad_token_id samples = Inr b \<and>
      length (batch_input_ids b) = 2 * length samples \<and>
      (\<forall>i < length samples.
         (\<exists>k. batch_input_ids b ! i
                = better_input_ids (samples ! i) @ replicate k pad_token_id) \<and>
         (\<exists>k. batch_input_ids b ! (length samples + i)
                = worse_input_ids (samples ! i) @ replicate k pad_token_id)) \<and>
      batch_response_lens b
        = map better_response_lens samples @ map worse_response_lens samples \<and>
      batch_pixel_values b =
        (case pixel_values (hd samples) of
           None \<Rightarrow> None
         | Some _ \<Rightarrow>
             Some (concat (map (images_of \<circ> pixel_values) samples)
                   @ concat (map (images_of \<circ> pixel_values) samples)))"
proof -
  let ?pvs = "map pixel_values samples"
  let ?ids = "map better_input_ids samples @ map worse_input_ids samples"
  let ?imgs = "concat (map (images_of \<circ> pixel_values) samples)"
  have mm: "map images_of ?pvs = map (images_of \<circ> pixel_values) samples" by simp
  have pne: "?pvs \<noteq> []" using ne by simp
  have hd: "hd ?pvs = pixel_values (hd samples)" using ne by (simp add: hd_map)
  have pk: "\<forall>pv \<in> set ?pvs. same_kind (hd ?pvs) pv" using kind by (simp add: hd)
  from collate_pixels_uniform [OF pne pk] obtain sizes where
    cp: "collate_pixels ?pvs =
           Inr (sizes, case pixel_values (hd samples) of None \<Rightarrow> None
                       | Some _ \<Rightarrow> Some (?imgs @ ?imgs))"
    unfolding hd mm by blast
  let ?b = "\<lparr>batch_input_ids = right_padding_ids ?ids pad_token_id,
            batch_attention_mask = right_padding_mask (map (map (\<lambda>_. True)) ?ids) False,
            batch_better_response_lens = map better_response_lens samples,
            batch_worse_response_lens = map worse_response_lens samples,
            batch_response_lens = map better_response_lens samples @ map worse_response_lens samples,
            batch_image_sizes = sizes,
            batch_pixel_values = (case pixel_values (hd samples) of None \<Rightarrow> None
                       | Some _ \<Rightarrow> Some (?imgs @ ?imgs))\<rparr>"
  have c: "collate right_padding_ids right_padding_mask pad_token_id samples = Inr ?b"
    by (simp add: collate_def Let_def cp)
  have len: "length (right_padding_ids ?ids pad_token_id) = length ?ids"
    and row: "\<And>i. i < length ?ids \<Longrightarrow>
          \<exists>k. right_padding_ids ?ids pad_token_id ! i = ?ids ! i @ replicate k pad_token_id"
    using rp unfolding pads_right_def by blast+
  have l2: "length (batch_input_ids ?b) = 2 * length samples" by (simp add: len)
  have rows: "(\<exists>k. batch_input_ids ?b ! i
                = better_input_ids (samples ! i) @ replicate k pad_token_id) \<and>
         (\<exists>k. batch_input_ids ?b ! (length samples + i)
                = worse_input_ids (samples ! i) @ replicate k pad_token_id)"
    if i: "i < length samples" for i
  proof -
    have "i < length ?ids" and "length samples + i < length ?ids" using i by simp_all
    from row [OF this(1)] row [OF this(2)] i show ?thesis
      by (simp add: nth_append)
  qed
  have px: "batch_pixel_values ?b =
        (case pixel_values (hd samples) of
           None \<Rightarrow> None
         | Some _ \<Rightarrow>
             Some (concat (map (images_of \<circ> pixel_values) samples)
                   @ concat (map (images_of \<circ> pixel_values) samples)))"
    by simp
  have rl: "batch_response_lens ?b
        = map better_response_lens samples @ map worse_response_lens samples"
    by simp
  from c l2 rows rl px show ?thesis by blast
qed

text \<open>
  C10. For a non-empty list of \<open>B\<close> samples whose pixel entries are of one kind, and a
  \<^verbatim>\<open>right_padding\<close> that keeps the rows in order and pads them on the right, each of the
  two collators returns a batch whose \<open>input_ids\<close> has \<open>2 * B\<close> rows: rows \<open>0..B-1\<close> are
  the (padded) better sequences and rows \<open>B..2*B-1\<close> the (padded) worse sequences, in
  sample order; \<open>response_lens\<close> is the better response lengths followed by the worse
  ones; and \<open>pixel_values\<close>, when the first sample has the key, is the images of all
  samples in order, followed by the same images again.
\<close>

theorem collator_batch_layout:
  fixes samples :: "'img sample list" and samples_ours :: "'img sample_ours list"
  assumes rp: "pads_right right_padding_ids"
    and ne: "samples \<noteq> []"
    and kind: "\<forall>s \<in> set samples. same_kind (pixel_values (hd samples)) (pixel_values s)"
    and ne_ours: "samples_ours \<noteq> []"
    and kind_ours: "\<forall>s \<in> set samples_ours.
                      same_kind (pixel_values (hd samples_ours)) (pixel_values s)"
  shows "(\<exists>b. PreferenceCollator_call right_padding_ids right_padding_mask pad_token_id samples
                = Inr b \<and>
      length (batch_input_ids b) = 2 * length samples \<and>
      (\<forall>i < length samples.
         (\<exists>k. batch_input_ids b ! i
                = better_input_ids (samples ! i) @ replicate k pad_token_id) \<and>
         (\<exists>k. batch_input_ids b ! (length samples + i)
                = worse_input_ids (samples ! i) @ replicate k pad_token_id)) \<and>
      batch_response_lens b
        = map better_response_lens samples @ map worse_response_lens samples \<and>
      batch_pixel_values b =
        (case pixel_values (hd samples) of
           None \<Rightarrow> None
         | Some _ \<Rightarrow>
             Some (concat (map (images_of \<circ> pixel_values) samples)
                   @ concat (map (images_of \<circ> pixel_values) samples)))) \<and>
    (\<exists>b. PreferenceCollator_ours_call right_padding_ids right_padding_mask pad_token_id
              samples_ours = Inr b \<and>
      length (batch_input_ids b) = 2 * length samples_ours \<and>
      (\<forall>i < length samples_ours.
         (\<exists>k. batch_input_ids b ! i
                = better_input_ids (samples_ours ! i) @ replicate k pad_token_id) \<and>
         (\<exists>k. batch_input_ids b ! (length samples_ours + i)
                = worse_input_ids (samples_ours ! i) @ replicate k pad_token_id)) \<and>
      batch_response_lens b
        = map better_response_lens samples_ours @ map worse_response_lens samples_ours \<and>
      batch_pixel_values b =
        (case pixel_values (hd samples_ours) of
           None \<Rightarrow> None
         | Some _ \<Rightarrow>
             Some (concat (map (images_of \<circ> pixel_values) samples_ours)
                   @ concat (map (images_of \<circ> pixel_values) samples_ours))))"
proof (rule conjI)
  from collate_layout [OF rp ne kind, of right_padding_mask pad_token_id]
  show "\<exists>b. PreferenceCollator_call right_padding_ids right_padding_mask pad_token_id samples
                = Inr b \<and>
      length (batch_input_ids b) = 2 * length samples \<and>
      (\<forall>i < length samples.
         (\<exists>k. batch_input_ids b ! i
                = better_input_ids (samples ! i) @ replicate k pad_token_id) \<and>
         (\<exists>k. batch_input_ids b ! (length samples + i)
                = worse_input_ids (samples ! i) @ replicate k pad_token_id)) \<and>
      batch_response_lens b
        = map better_response_lens samples @ map worse_response_lens samples \<and>
      batch_pixel_values b =
        (case pixel_values (hd samples) of
           None \<Rightarrow> None
         | Some _ \<Rightarrow>
             Some (concat (map (images_of \<circ> pixel_values) samples)
                   @ concat (map (images_of \<circ> pixel_values) samples)))"
    unfolding PreferenceCollator_call_def .
next
  from collate_layout [OF rp ne_ours kind_ours, of right_padding_mask pad_token_id]
  obtain b where
    c: "collate right_padding_ids right_padding_mask pad_token_id samples_ours = Inr b"
    and p: "length (batch_input_ids b) = 2 * length samples_ours"
      "\<forall>i < length samples_ours.
         (\<exists>k. batch_input_ids b ! i
                = better_input_ids (samples_ours ! i) @ replicate k pad_token_id) \<and>
         (\<exists>k. batch_input_ids b ! (length samples_ours + i)
                = worse_input_ids (samples_ours ! i) @ replicate k pad_token_id)"
      "batch_response_lens b
        = map better_response_lens samples_ours @ map worse_response_lens samples_ours"
      "batch_pixel_values b =
        (case pixel_values (hd samples_ours) of
           None \<Rightarrow> None
         | Some _ \<Rightarrow>
             Some (concat (map (images_of \<circ> pixel_values) samples_ours)
                   @ concat (map (images_of \<circ> pixel_values) samples_ours)))"
    by blast
  let ?b = "batch.extend b
                 \<lparr>batch_is_better_safe = map is_better_safe samples_ours,
                  batch_is_worse_safe = map is_worse_safe samples_ours\<rparr>"
  have o: "PreferenceCollator_ours_call right_padding_ids right_padding_mask pad_token_id
              samples_ours = Inr ?b"
    by (simp add: PreferenceCollator_ours_call_def c)
  have e: "batch_input_ids ?b = batch_input_ids b"
    "batch_response_lens ?b = batch_response_lens b"
    "batch_pixel_values ?b = batch_pixel_values b"
    by (simp_all add: batch.defs)
  show "\<exists>b. PreferenceCollator_ours_call right_padding_ids right_padding_mask pad_token_id
              samples_ours = Inr b \<and>
      length (batch_input_ids b) = 2 * length samples_ours \<and>
      (\<forall>i < length samples_ours.
         (\<exists>k. batch_input_ids b ! i
                = better_input_ids (samples_ours ! i) @ replicate k pad_token_id) \<and>
         (\<exists>k. batch_input_ids b ! (length samples_ours + i)
                = worse_input_ids (samples_ours ! i) @ replicate k pad_token_id)) \<and>
      batch_response_lens b
        = map better_response_lens samples_ours @ map worse_response_lens samples_ours \<and>
      batch_pixel_values b =
        (case pixel_values (hd samples_ours) of
           None \<Rightarrow> None
         | Some _ \<Rightarrow>
             Some (concat (map (images_of \<circ> pixel_values) samples_ours)
                   @ concat (map (images_of \<circ> pixel_values) samples_ours)))"
    unfolding e [symmetric] using o p [unfolded e [symmetric]] by (intro exI [of _ ?b] conjI)
qed

text \<open>
  The theorem at two samples with image patches for the first collator and at one sample
  with a single image for the second.
\<close>

theorem collator_batch_layout_witness:
  "(\<exists>b. PreferenceCollator_call pad_right pad_right 0
          [\<lparr>better_input_ids = [1, 2, 3], worse_input_ids = [1, 4],
            better_response_lens = 2, worse_response_lens = 1,
            pixel_values = Some (Patches [''a'', ''b''])\<rparr>,
           \<lparr>better_input_ids = [5], worse_input_ids = [6, 7, 8, 9],
            better_response_lens = 1, worse_response_lens = 3,
            pixel_values = Some (Patches [''c''])\<rparr>] = Inr b \<and>
        length (batch_input_ids b) = 4 \<and>
        batch_response_lens b = [2, 1, 1, 3] \<and>
        batch_pixel_values b = Some [''a'', ''b'', ''c'', ''a'', ''b'', ''c'']) \<and>
   (\<exists>b. PreferenceCollator_ours_call pad_right pad_right 0
          [\<lparr>better_input_ids = [1, 2, 3], worse_input_ids = [1, 4],
            better_response_lens = 2, worse_response_lens = 1,
            pixel_values = Some (Image ''a''),
            is_better_safe = ''yes'', is_worse_safe = ''no''\<rparr>] = Inr b \<and>
        length (batch_input_ids b) = 2 \<and>
        batch_response_lens b = [2, 1] \<and>
        batch_pixel_values b = Some [''a'', ''a''])"
proof -
  let ?S = "[\<lparr>better_input_ids = [1, 2, 3], worse_input_ids = [1, 4],
            better_response_lens = 2, worse_response_lens = 1,
            pixel_values = Some (Patches [''a'', ''b''])\<rparr>,
           \<lparr>better_input_ids = [5], worse_input_ids = [6, 7, 8, 9],
            better_response_lens = 1, worse_response_lens = 3,
            pixel_values = Some (Patches [''c''])\<rparr>]"
  let ?T = "[\<lparr>better_input_ids = [1, 2, 3], worse_input_ids = [1, 4],
            better_response_lens = 2, worse_response_lens = 1,
            pixel_values = Some (Image ''a''),
            is_better_safe = ''yes'', is_worse_safe = ''no''\<rparr>]"
  have ne: "?S \<noteq> []" and ne_ours: "?T \<noteq> []" by simp_all
  have kind: "\<forall>s \<in> set ?S. same_kind (pixel_values (hd ?S)) (pixel_values s)"
    by (simp add: same_kind_def)
  have kind_ours: "\<forall>s \<in> set ?T. same_kind (pixel_values (hd ?T)) (pixel_values s)"
    by (simp add: same_kind_def)
  note t = collator_batch_layout [OF pads_right_pad_right ne kind ne_ours kind_ours,
      of pad_right 0]
  from t [THEN conjunct1] obtain b where
    b: "PreferenceCollator_call pad_right pad_right 0 ?S = Inr b"
      "length (batch_input_ids b) = 2 * length ?S"
      "batch_response_lens b = map better_response_lens ?S @ map worse_response_lens ?S"
      "batch_pixel_values b =
        (case pixel_values (hd ?S) of
           None \<Rightarrow> None
         | Some _ \<Rightarrow>
             Some (concat (map (images_of \<circ> pixel_values) ?S)
                   @ concat (map (images_of \<circ> pixel_values) ?S)))"
    by blast
  from t [THEN conjunct2] obtain c where
    c: "PreferenceCollator_ours_call pad_right pad_right 0 ?T = Inr c"
      "length (batch_input_ids c) = 2 * length ?T"
      "batch_response_lens c = map better_response_lens ?T @ map worse_response_lens ?T"
      "batch_pixel_values c =
        (case pixel_values (hd ?T) of
           None \<Rightarrow> None
         | Some _ \<Rightarrow>
             Some (concat (map (images_of \<circ> pixel_values) ?T)
                   @ concat (map (images_of \<circ> pixel_values) ?T)))"
    by blast
  have "PreferenceCollator_call pad_right pad_right 0 ?S = Inr b \<and>
        length (batch_input_ids b) = 4 \<and>
        batch_response_lens b = [2, 1, 1, 3] \<and>
        batch_pixel_values b = Some [''a'', ''b'', ''c'', ''a'', ''b'', ''c'']"
    using b by (simp add: images_of_def)
  moreover have "PreferenceCollator_ours_call pad_right pad_right 0 ?T = Inr c \<and>
        length (batch_input_ids c) = 2 \<and>
        batch_response_lens c = [2, 1] \<and>
        batch_pixel_values c = Some [''a'', ''a'']"
    using c by (simp add: images_of_def)
  ultimately show ?thesis by blast
qed

section \<open>Properties of the episode cost window\<close>

lemma drop_append_left: "k \<le> length ys \<Longrightarrow> drop k ys @ xs = drop k (ys @ xs)"
  by simp

lemma deque_append_last:
  "length d \<le> W \<Longrightarrow> deque_append W d x = drop (Suc (length d) - W) (d @ [x])"
  by (cases d) (auto simp: deque_append_def Let_def Suc_diff_le)

lemma deque_append_length:
  "length d \<le> W \<Longrightarrow> length (deque_append W d x) \<le> W"
  by (auto simp: deque_append_def Let_def)

lemma deque_extend_last:
  "length d \<le> W \<Longrightarrow>
   deque_extend W d xs = drop (length (d @ xs) - W) (d @ xs) \<and>
   length (deque_extend W d xs) \<le> W"
proof (induction xs arbitrary: d)
  case Nil
  then show ?case by (simp add: deque_extend_def)
next
  case (Cons x xs)
  let ?k = "Suc (length d) - W"
  let ?d = "deque_append W d x"
  have l: "length ?d \<le> W" using Cons.prems by (rule deque_append_length)
  have e: "?d = drop ?k (d @ [x])" using Cons.prems by (rule deque_append_last)
  have k: "?k \<le> length (d @ [x])" by simp
  have step: "deque_extend W d (x # xs) = deque_extend W ?d xs"
    by (simp add: deque_extend_def)
  have "?d @ xs = drop ?k ((d @ [x]) @ xs)"
    unfolding e by (rule drop_append_left [OF k])
  then have app: "?d @ xs = drop ?k (d @ x # xs)" by simp
  have len: "length (?d @ xs) - W + ?k = length (d @ x # xs) - W"
    using Cons.prems by (simp add: e)
  have "drop (length (?d @ xs) - W) (?d @ xs) = drop (length (d @ x # xs) - W) (d @ x # xs)"
    unfolding app [symmetric] using app len by (metis drop_drop)
  then show ?case using Cons.IH [OF l] step by simp
qed

lemma window_run_last:
  "length d \<le> W \<Longrightarrow>
   foldl (cost_model_step_window W) d batches =
     drop (length (d @ concat batches) - W) (d @ concat batches) \<and>
   length (foldl (cost_model_step_window W) d batches) \<le> W"
proof (induction batches arbitrary: d)
  case Nil
  then show ?case by simp
next
  case (Cons b bs)
  let ?d = "cost_model_step_window W d b"
  have e: "?d = drop (length (d @ b) - W) (d @ b)" and l: "length ?d \<le> W"
    using deque_extend_last [OF Cons.prems, of b] by (simp_all add: cost_model_step_window_def)
  let ?k = "length (d @ b) - W"
  have k: "?k \<le> length (d @ b)" by simp
  have "?d @ concat bs = drop ?k ((d @ b) @ concat bs)"
    unfolding e by (rule drop_append_left [OF k])
  then have app: "?d @ concat bs = drop ?k (d @ concat (b # bs))" by simp
  have len: "length (?d @ concat bs) - W + ?k = length (d @ concat (b # bs)) - W"
    by (simp add: e)
  have "drop (length (?d @ concat bs) - W) (?d @ concat bs) =
        drop (length (d @ concat (b # bs)) - W) (d @ concat (b # bs))"
    unfolding app [symmetric] using app len by (metis drop_drop)
  then show ?case using Cons.IH [OF l] by simp
qed

text \<open>
  C9. The episode cost window is a bounded, order-preserving FIFO: after any run of
  cost-scoring steps, each of which appends the costs of its batch in batch order, the
  window holds the most recent \<open>W\<close> of all costs seen so far, in the order they were
  seen (all of them while fewer than \<open>W\<close> have been seen), and never more than \<open>W\<close>.
\<close>

theorem episode_cost_window_fifo:
  "episode_costs_after W batches =
     drop (length (concat batches) - W) (concat batches) \<and>
   length (episode_costs_after W batches) = min W (length (concat batches))"
proof -
  have "episode_costs_after W batches =
          drop (length (concat batches) - W) (concat batches)"
    using window_run_last [of "[]" W batches] by (simp add: episode_costs_after_def)
  then show ?thesis by auto
qed

end
